theory Spec2Isabelle
  imports Complex_Main "HOL-Library.AList" "HOL-Library.Word"
begin

section \<open>JavaScript strings, bytes and thrown errors\<close>

text \<open>
  A JavaScript string is a sequence of UTF-16 code units; the model keeps each code unit as
  a natural number, so that \<open>charCodeAt\<close> is the element itself.  \<open>js\<close> turns a
  literal of the theory into such a string.  A \<open>Uint8Array\<close> is a list of 8-bit words.
\<close>

type_synonym jstring = "nat list"

type_synonym byte = "8 word"

definition js :: "string \<Rightarrow> jstring" where
  "js s = map of_char s"

text \<open>
  What the code throws: \<open>new Error(message)\<close> of the repository, and the exceptions of
  the platform functions it calls (\<open>atob\<close> and \<open>btoa\<close> raise the DOMException
  \<open>InvalidCharacterError\<close>, \<open>JSON.parse\<close> a \<open>SyntaxError\<close>, a property read on
  \<open>null\<close> or \<open>undefined\<close> a \<open>TypeError\<close>, \<open>encodeURIComponent\<close> and
  \<open>decodeURIComponent\<close> a \<open>URIError\<close>).  \<open>ProviderError\<close> is whatever the external
  WebCrypto provider rejects with.
\<close>

datatype js_error =
    Error jstring
  | TypeError
  | SyntaxError
  | URIError
  | InvalidCharacterError
  | ProviderError

section \<open>The platform's base64: \<open>btoa\<close> and \<open>atob\<close>\<close>

text \<open>
  The base64 alphabet, index to code unit and back: \<open>A-Z\<close> are 0..25, \<open>a-z\<close> 26..51,
  \<open>0-9\<close> 52..61, \<open>+\<close> is 62 and \<open>/\<close> is 63.
\<close>

definition b64_char :: "nat \<Rightarrow> nat" where
  "b64_char i =
     (if i < 26 then 65 + i
      else if i < 52 then 97 + (i - 26)
      else if i < 62 then 48 + (i - 52)
      else if i = 62 then 43
      else 47)"

definition b64_index :: "nat \<Rightarrow> nat option" where
  "b64_index c =
     (if 65 \<le> c \<and> c \<le> 90 then Some (c - 65)
      else if 97 \<le> c \<and> c \<le> 122 then Some (c - 71)
      else if 48 \<le> c \<and> c \<le> 57 then Some (c + 4)
      else if c = 43 then Some 62
      else if c = 47 then Some 63
      else None)"

text \<open>
  \<open>btoa\<close> reads three bytes as four 6-bit groups; a last group of one or two bytes is padded
  with \<open>=\<close> (code unit 61).  It throws when a code unit of its argument is above 255.
\<close>

fun btoa_groups :: "nat list \<Rightarrow> nat list" where
  "btoa_groups [] = []"
| "btoa_groups [a] = [b64_char (a div 4), b64_char ((a mod 4) * 16), 61, 61]"
| "btoa_groups [a, b] =
     [b64_char (a div 4), b64_char ((a mod 4) * 16 + b div 16), b64_char ((b mod 16) * 4), 61]"
| "btoa_groups (a # b # c # rest) =
     b64_char (a div 4) # b64_char ((a mod 4) * 16 + b div 16)
       # b64_char ((b mod 16) * 4 + c div 64) # b64_char (c mod 64) # btoa_groups rest"

definition btoa :: "jstring \<Rightarrow> js_error + jstring" where
  "btoa s = (if list_all (\<lambda>c. c < 256) s then Inr (btoa_groups s) else Inl InvalidCharacterError)"

text \<open>
  \<open>atob\<close> is the forgiving base64 decoder of the HTML standard: ASCII whitespace is
  removed; when the length is then a multiple of 4, one or two trailing \<open>=\<close> are removed;
  a length of 1 modulo 4 fails; a code unit outside the alphabet fails; the 6-bit groups are
  read four at a time, and the 4 or 2 bits left over in a last group of two or three are
  dropped.
\<close>

definition ascii_whitespace :: "nat \<Rightarrow> bool" where
  "ascii_whitespace c = (c = 9 \<or> c = 10 \<or> c = 12 \<or> c = 13 \<or> c = 32)"

definition strip_padding :: "jstring \<Rightarrow> jstring" where
  "strip_padding d =
     (if length d mod 4 = 0 then
        (case rev d of
           a # b # r \<Rightarrow> if a = 61 \<and> b = 61 then rev r else if a = 61 then rev (b # r) else d
         | _ \<Rightarrow> d)
      else d)"

fun atob_groups :: "nat list \<Rightarrow> nat list" where
  "atob_groups (s0 # s1 # s2 # s3 # rest) =
     (s0 * 4 + s1 div 16) # ((s1 mod 16) * 16 + s2 div 4) # ((s2 mod 4) * 64 + s3)
       # atob_groups rest"
| "atob_groups [s0, s1, s2] = [s0 * 4 + s1 div 16, (s1 mod 16) * 16 + s2 div 4]"
| "atob_groups [s0, s1] = [s0 * 4 + s1 div 16]"
| "atob_groups [s0] = []"
| "atob_groups [] = []"

definition atob :: "jstring \<Rightarrow> js_error + jstring" where
  "atob data =
     (let d = strip_padding (filter (\<lambda>c. \<not> ascii_whitespace c) data)
      in if length d mod 4 = 1 then Inl InvalidCharacterError
         else (case those (map b64_index d) of
                 None \<Rightarrow> Inl InvalidCharacterError
               | Some ss \<Rightarrow> Inr (atob_groups ss)))"

section \<open>The base64url codec of the repository\<close>

text \<open>
  The class \<open>\s\<close> of a JavaScript regular expression: the ASCII whitespace with the
  vertical tab, the no-break space, the byte order mark and the Unicode space separators.
\<close>

definition regex_space :: "nat \<Rightarrow> bool" where
  "regex_space c =
     (c = 9 \<or> c = 10 \<or> c = 11 \<or> c = 12 \<or> c = 13 \<or> c = 32 \<or> c = 160 \<or> c = 5760
      \<or> (8192 \<le> c \<and> c \<le> 8202) \<or> c = 8232 \<or> c = 8233 \<or> c = 8239 \<or> c = 8287
      \<or> c = 12288 \<or> c = 65279)"

definition replace_all :: "nat \<Rightarrow> nat \<Rightarrow> jstring \<Rightarrow> jstring" where
  "replace_all a b s = map (\<lambda>c. if c = a then b else c) s"

text \<open>
  \<^verbatim>\<open>atob(s.replace(/-/g, '+').replace(/_/g, '/').replace(/\s/g, ''))\<close>, each code unit of
  the result stored in a \<open>Uint8Array\<close>.
\<close>

definition base64UrlParse :: "jstring \<Rightarrow> js_error + byte list" where
  "base64UrlParse s =
     (case atob (filter (\<lambda>c. \<not> regex_space c) (replace_all 95 47 (replace_all 45 43 s))) of
        Inl e \<Rightarrow> Inl e
      | Inr t \<Rightarrow> Inr (map of_nat t))"

text \<open>
  \<^verbatim>\<open>btoa(String.fromCharCode.apply(0, Array.from(a))).replace(/=/g, '')
     .replace(/\+/g, '-').replace(/\//g, '_')\<close>
\<close>

definition base64UrlStringify :: "byte list \<Rightarrow> js_error + jstring" where
  "base64UrlStringify a =
     (case btoa (map unat a) of
        Inl e \<Rightarrow> Inl e
      | Inr t \<Rightarrow> Inr (replace_all 47 95 (replace_all 43 45 (filter (\<lambda>c. c \<noteq> 61) t))))"


section \<open>JavaScript values\<close>

text \<open>
  The values the code handles.  A number is a rational: arithmetic is exact, and the
  rounding of doubles, \<open>NaN\<close> and the infinities are outside the model.  An object is the
  list of its own properties in insertion order.
\<close>

datatype jsval =
    JUndefined
  | JNull
  | JBool bool
  | JNum rat
  | JStr jstring
  | JArr "jsval list"
  | JObj "(jstring \<times> jsval) list"

datatype jstype = TUndefined | TObject | TBoolean | TNumber | TString

fun typeof :: "jsval \<Rightarrow> jstype" where
  "typeof JUndefined = TUndefined"
| "typeof JNull = TObject"
| "typeof (JBool _) = TBoolean"
| "typeof (JNum _) = TNumber"
| "typeof (JStr _) = TString"
| "typeof (JArr _) = TObject"
| "typeof (JObj _) = TObject"


text \<open>Truthiness, as \<open>if (v)\<close>, \<open>!v\<close>, \<open>a && b\<close> and \<open>a || b\<close> read a value.\<close>

fun truthy :: "jsval \<Rightarrow> bool" where
  "truthy JUndefined = False"
| "truthy JNull = False"
| "truthy (JBool b) = b"
| "truthy (JNum n) = (n \<noteq> 0)"
| "truthy (JStr s) = (s \<noteq> [])"
| "truthy (JArr _) = True"
| "truthy (JObj _) = True"

text \<open>
  \<open>o[k]\<close> on an object literal: the own property, \<open>undefined\<close> when there is none.
\<close>

definition lookup :: "(jstring \<times> jsval) list \<Rightarrow> jstring \<Rightarrow> jsval" where
  "lookup obj k = (case map_of obj k of None \<Rightarrow> JUndefined | Some v \<Rightarrow> v)"

text \<open>
  \<open>v[k]\<close> on any value, for the property names the code reads (\<open>exp\<close>, \<open>nbf\<close>,
  \<open>iat\<close>, \<open>aud\<close>, \<open>iss\<close>, \<open>sub\<close>, \<open>jti\<close>, \<open>typ\<close>, \<open>payload\<close>): none of them is a
  property of a string, a number, a boolean or an array, and reading a property of \<open>null\<close>
  or \<open>undefined\<close> throws a \<open>TypeError\<close>.
\<close>

fun get_prop :: "jsval \<Rightarrow> jstring \<Rightarrow> js_error + jsval" where
  "get_prop JUndefined k = Inl TypeError"
| "get_prop JNull k = Inl TypeError"
| "get_prop (JObj obj) k = Inr (lookup obj k)"
| "get_prop _ k = Inr JUndefined"

text \<open>
  \<open>{ ...a, ...b }\<close> and \<open>Object.assign(a, b)\<close>: the properties of \<open>b\<close> are written over those
  of \<open>a\<close> in \<open>b\<close>'s order; a property that exists keeps its place.
\<close>

definition assign :: "(jstring \<times> jsval) list \<Rightarrow> (jstring \<times> jsval) list \<Rightarrow> (jstring \<times> jsval) list" where
  "assign a b = foldl (\<lambda>acc kv. AList.update (fst kv) (snd kv) acc) a b"


section \<open>The platform's text functions\<close>

subsection \<open>\<open>String.prototype.split\<close> and the token grammar\<close>

fun split_on :: "nat \<Rightarrow> jstring \<Rightarrow> jstring list" where
  "split_on d [] = [[]]"
| "split_on d (c # s) =
     (if c = d then [] # split_on d s
      else (case split_on d s of p # ps \<Rightarrow> (c # p) # ps | [] \<Rightarrow> [[c]]))"

fun join :: "jstring \<Rightarrow> jstring list \<Rightarrow> jstring" where
  "join sep [] = []"
| "join sep [x] = x"
| "join sep (x # y # ys) = x @ sep @ join sep (y # ys)"

text \<open>The character class \<^verbatim>\<open>[a-zA-Z0-9\-_]\<close>.\<close>

definition jws_char :: "nat \<Rightarrow> bool" where
  "jws_char c =
     ((97 \<le> c \<and> c \<le> 122) \<or> (65 \<le> c \<and> c \<le> 90) \<or> (48 \<le> c \<and> c \<le> 57) \<or> c = 45 \<or> c = 95)"

text \<open>
  \<^verbatim>\<open>JWS_REGEX = /^[a-zA-Z0-9\-_]+?\.[a-zA-Z0-9\-_]+?\.([a-zA-Z0-9\-_]+)?$/\<close>.  The class
  excludes the dot, so the expression matches exactly the strings with two dots whose
  first two segments are non-empty and whose three segments are made of the class.
\<close>

definition JWS_REGEX_test :: "jstring \<Rightarrow> bool" where
  "JWS_REGEX_test s =
     (case split_on 46 s of
        [a, b, c] \<Rightarrow> a \<noteq> [] \<and> b \<noteq> [] \<and> list_all jws_char a \<and> list_all jws_char b \<and> list_all jws_char c
      | _ \<Rightarrow> False)"

subsection \<open>UTF-8\<close>

text \<open>
  \<open>unescape(encodeURIComponent(str))\<close>: the UTF-8 bytes of \<open>str\<close> as a string of code
  units below 256.  \<open>encodeURIComponent\<close> throws a \<open>URIError\<close> on a surrogate that has no
  partner.
\<close>

fun utf8_encode :: "jstring \<Rightarrow> js_error + nat list" where
  "utf8_encode [] = Inr []"
| "utf8_encode (c # rest) =
     (if c < 128 then map_sum id (\<lambda>bs. c # bs) (utf8_encode rest)
      else if c < 2048 then
        map_sum id (\<lambda>bs. (192 + c div 64) # (128 + c mod 64) # bs) (utf8_encode rest)
      else if 55296 \<le> c \<and> c \<le> 56319 then
        (case rest of
           [] \<Rightarrow> Inl URIError
         | d # r \<Rightarrow>
             if 56320 \<le> d \<and> d \<le> 57343 then
               (let cp = 65536 + (c - 55296) * 1024 + (d - 56320)
                in map_sum id
                     (\<lambda>bs. (240 + cp div 262144) # (128 + (cp div 4096) mod 64)
                        # (128 + (cp div 64) mod 64) # (128 + cp mod 64) # bs)
                     (utf8_encode r))
             else Inl URIError)
      else if 56320 \<le> c \<and> c \<le> 57343 then Inl URIError
      else map_sum id
             (\<lambda>bs. (224 + c div 4096) # (128 + (c div 64) mod 64) # (128 + c mod 64) # bs)
             (utf8_encode rest))"

text \<open>
  \<open>buf.toString('utf8')\<close> of the \<open>Buffer\<close> polyfill: an ill-formed sequence gives the
  replacement character U+FFFD (65533) and decoding resumes at the next byte; a code point
  above the basic plane gives a surrogate pair.
\<close>

definition cont_byte :: "nat \<Rightarrow> bool" where
  "cont_byte b = (128 \<le> b \<and> b < 192)"

fun utf8_slice :: "nat list \<Rightarrow> jstring" where
  "utf8_slice [] = []"
| "utf8_slice (b0 # rest) =
     (if b0 < 128 then b0 # utf8_slice rest
      else if b0 > 239 then
        (case rest of
           b1 # b2 # b3 # r \<Rightarrow>
             (let cp = (b0 mod 16) * 262144 + (b1 mod 64) * 4096 + (b2 mod 64) * 64 + b3 mod 64
              in if cont_byte b1 \<and> cont_byte b2 \<and> cont_byte b3 \<and> cp > 65535 \<and> cp < 1114112
                 then (55296 + ((cp - 65536) div 1024) mod 1024)
                        # (56320 + (cp - 65536) mod 1024) # utf8_slice r
                 else 65533 # utf8_slice rest)
         | _ \<Rightarrow> 65533 # utf8_slice rest)
      else if b0 > 223 then
        (case rest of
           b1 # b2 # r \<Rightarrow>
             (let cp = (b0 mod 16) * 4096 + (b1 mod 64) * 64 + b2 mod 64
              in if cont_byte b1 \<and> cont_byte b2 \<and> cp > 2047 \<and> (cp < 55296 \<or> cp > 57343)
                 then cp # utf8_slice r
                 else 65533 # utf8_slice rest)
         | _ \<Rightarrow> 65533 # utf8_slice rest)
      else if b0 > 191 then
        (case rest of
           b1 # r \<Rightarrow>
             (let cp = (b0 mod 32) * 64 + b1 mod 64
              in if cont_byte b1 \<and> cp > 127 then cp # utf8_slice r
                 else 65533 # utf8_slice rest)
         | _ \<Rightarrow> 65533 # utf8_slice rest)
      else 65533 # utf8_slice rest)"

subsection \<open>\<open>Buffer.from(s, 'base64')\<close>\<close>

text \<open>
  The \<open>Buffer\<close> polyfill reads both alphabets (\<open>-\<close> as 62, \<open>_\<close> as 63), stops at the
  first \<open>=\<close>, leaves out every other code unit that is not of an alphabet, and drops a
  last group of one character.  The result is the list of byte values.
\<close>

definition buffer_index :: "nat \<Rightarrow> nat option" where
  "buffer_index c = (if c = 45 then Some 62 else if c = 95 then Some 63 else b64_index c)"

definition buffer_from_base64 :: "jstring \<Rightarrow> nat list" where
  "buffer_from_base64 s = atob_groups (List.map_filter buffer_index (takeWhile (\<lambda>c. c \<noteq> 61) s))"


subsection \<open>\<open>JSON.stringify\<close>\<close>

definition hex_digit :: "nat \<Rightarrow> nat" where
  "hex_digit n = (if n < 10 then 48 + n else 87 + n)"

definition unicode_escape :: "nat \<Rightarrow> jstring" where
  "unicode_escape c =
     [92, 117, hex_digit (c div 4096 mod 16), hex_digit (c div 256 mod 16),
      hex_digit (c div 16 mod 16), hex_digit (c mod 16)]"

text \<open>
  The characters between the quotes: the two-character escapes for backspace, tab, line
  feed, form feed, carriage return, the quote and the backslash, \<^verbatim>\<open>\u00xx\<close> for the other
  control characters and for a surrogate without partner.
\<close>

fun quote_chars :: "jstring \<Rightarrow> jstring" where
  "quote_chars [] = []"
| "quote_chars (c # rest) =
     (if c = 8 then 92 # 98 # quote_chars rest
      else if c = 9 then 92 # 116 # quote_chars rest
      else if c = 10 then 92 # 110 # quote_chars rest
      else if c = 12 then 92 # 102 # quote_chars rest
      else if c = 13 then 92 # 114 # quote_chars rest
      else if c = 34 then 92 # 34 # quote_chars rest
      else if c = 92 then 92 # 92 # quote_chars rest
      else if c < 32 then unicode_escape c @ quote_chars rest
      else if 55296 \<le> c \<and> c \<le> 56319 then
        (case rest of
           [] \<Rightarrow> unicode_escape c
         | d # r \<Rightarrow>
             if 56320 \<le> d \<and> d \<le> 57343 then c # d # quote_chars r
             else unicode_escape c @ quote_chars rest)
      else if 56320 \<le> c \<and> c \<le> 57343 then unicode_escape c @ quote_chars rest
      else c # quote_chars rest)"

definition quote :: "jstring \<Rightarrow> jstring" where
  "quote s = 34 # quote_chars s @ [34]"

fun digits :: "nat \<Rightarrow> jstring" where
  "digits n = (if n < 10 then [48 + n] else digits (n div 10) @ [48 + n mod 10])"

declare digits.simps [simp del]

fun frac_digits :: "nat \<Rightarrow> rat \<Rightarrow> jstring" where
  "frac_digits 0 f = []"
| "frac_digits (Suc k) f =
     (if f = 0 then []
      else (let d = nat \<lfloor>f * 10\<rfloor> in (48 + d) # frac_digits k (f * 10 - of_nat d)))"

text \<open>
  A number in positional decimal notation.  JavaScript prints the shortest decimal that
  reads back as the same double, with an exponent for the very large and the very small;
  the model, whose numbers are exact, prints the exact expansion (at most 1074 fraction
  digits, the longest a double has).
\<close>

definition show_number :: "rat \<Rightarrow> jstring" where
  "show_number r =
     (let a = \<bar>r\<bar>; n = nat \<lfloor>a\<rfloor>; f = a - of_nat n
      in (if r < 0 then [45] else []) @ digits n
           @ (if f = 0 then [] else 46 # frac_digits 1074 f))"

text \<open>
  \<open>JSON.stringify(v)\<close>; \<open>None\<close> is the result \<open>undefined\<close>.  An \<open>undefined\<close> element of
  an array is printed as \<open>null\<close>, an \<open>undefined\<close> property of an object is left out.
\<close>

fun json_stringify :: "jsval \<Rightarrow> jstring option"
  and stringify_elements :: "jsval list \<Rightarrow> jstring list"
  and stringify_members :: "(jstring \<times> jsval) list \<Rightarrow> jstring list" where
  "json_stringify JUndefined = None"
| "json_stringify JNull = Some (js ''null'')"
| "json_stringify (JBool b) = Some (if b then js ''true'' else js ''false'')"
| "json_stringify (JNum r) = Some (show_number r)"
| "json_stringify (JStr s) = Some (quote s)"
| "json_stringify (JArr xs) = Some (91 # join [44] (stringify_elements xs) @ [93])"
| "json_stringify (JObj kvs) = Some (123 # join [44] (stringify_members kvs) @ [125])"
| "stringify_elements [] = []"
| "stringify_elements (x # xs) =
     (case json_stringify x of None \<Rightarrow> js ''null'' | Some t \<Rightarrow> t) # stringify_elements xs"
| "stringify_members [] = []"
| "stringify_members (kv # kvs) =
     (case json_stringify (snd kv) of
        None \<Rightarrow> stringify_members kvs
      | Some t \<Rightarrow> (quote (fst kv) @ 58 # t) # stringify_members kvs)"

subsection \<open>\<open>JSON.parse\<close>\<close>

definition json_space :: "nat \<Rightarrow> bool" where
  "json_space c = (c = 32 \<or> c = 9 \<or> c = 10 \<or> c = 13)"

definition skip_ws :: "jstring \<Rightarrow> jstring" where
  "skip_ws s = dropWhile json_space s"

definition is_digit :: "nat \<Rightarrow> bool" where
  "is_digit c = (48 \<le> c \<and> c \<le> 57)"

definition hex_value :: "nat \<Rightarrow> nat option" where
  "hex_value c =
     (if 48 \<le> c \<and> c \<le> 57 then Some (c - 48)
      else if 97 \<le> c \<and> c \<le> 102 then Some (c - 87)
      else if 65 \<le> c \<and> c \<le> 70 then Some (c - 55)
      else None)"

definition digits_value :: "jstring \<Rightarrow> nat" where
  "digits_value ds = foldl (\<lambda>acc c. acc * 10 + (c - 48)) 0 ds"

text \<open>The characters of a string after the opening quote, up to the closing one.\<close>

fun parse_string :: "jstring \<Rightarrow> jstring \<Rightarrow> (jstring \<times> jstring) option" where
  "parse_string acc [] = None"
| "parse_string acc (c # r) =
     (if c = 34 then Some (acc, r)
      else if c = 92 then
        (case r of
           [] \<Rightarrow> None
         | e # r1 \<Rightarrow>
             if e = 34 \<or> e = 92 \<or> e = 47 then parse_string (acc @ [e]) r1
             else if e = 98 then parse_string (acc @ [8]) r1
             else if e = 102 then parse_string (acc @ [12]) r1
             else if e = 110 then parse_string (acc @ [10]) r1
             else if e = 114 then parse_string (acc @ [13]) r1
             else if e = 116 then parse_string (acc @ [9]) r1
             else if e = 117 then
               (case r1 of
                  h1 # h2 # h3 # h4 # r2 \<Rightarrow>
                    (case (hex_value h1, hex_value h2, hex_value h3, hex_value h4) of
                       (Some a, Some b, Some c', Some d) \<Rightarrow>
                         parse_string (acc @ [a * 4096 + b * 256 + c' * 16 + d]) r2
                     | _ \<Rightarrow> None)
                | _ \<Rightarrow> None)
             else None)
      else if c < 32 then None
      else parse_string (acc @ [c]) r)"

text \<open>
  A number: an optional minus, \<open>0\<close> or a digit sequence without leading zero, an optional
  fraction, an optional exponent.  The result is the value and the rest of the text.
\<close>

definition parse_exponent :: "jstring \<Rightarrow> (int \<times> jstring) option" where
  "parse_exponent s =
     (case s of
        [] \<Rightarrow> Some (0, s)
      | e # r \<Rightarrow>
          if e = 101 \<or> e = 69 then
            (let neg = (case r of x # _ \<Rightarrow> x = 45 | [] \<Rightarrow> False);
                 r1 = (case r of x # r' \<Rightarrow> if x = 45 \<or> x = 43 then r' else r | [] \<Rightarrow> r);
                 ds = takeWhile is_digit r1
             in if ds = [] then None
                else Some (if neg then - int (digits_value ds) else int (digits_value ds),
                           dropWhile is_digit r1))
          else Some (0, s))"

definition parse_fraction :: "jstring \<Rightarrow> (rat \<times> jstring) option" where
  "parse_fraction s =
     (case s of
        [] \<Rightarrow> Some (0, s)
      | p # r \<Rightarrow>
          if p = 46 then
            (let ds = takeWhile is_digit r
             in if ds = [] then None
                else Some (of_nat (digits_value ds) / 10 ^ length ds, dropWhile is_digit r))
          else Some (0, s))"

definition parse_number :: "jstring \<Rightarrow> (rat \<times> jstring) option" where
  "parse_number s =
     (let neg = (case s of x # _ \<Rightarrow> x = 45 | [] \<Rightarrow> False);
          s1 = (if neg then tl s else s);
          ip = (case s1 of
                  [] \<Rightarrow> None
                | d # r \<Rightarrow>
                    if d = 48 then Some (0, r)
                    else if is_digit d then
                      Some (digits_value (takeWhile is_digit s1), dropWhile is_digit s1)
                    else None)
      in case ip of
           None \<Rightarrow> None
         | Some (n, r1) \<Rightarrow>
             (case parse_fraction r1 of
                None \<Rightarrow> None
              | Some (f, r2) \<Rightarrow>
                  (case parse_exponent r2 of
                     None \<Rightarrow> None
                   | Some (e, r3) \<Rightarrow>
                       (let m = (of_nat n + f) * (if e < 0 then 1 / 10 ^ nat (- e) else 10 ^ nat e)
                        in Some (if neg then - m else m, r3)))))"

definition parse_literal :: "jstring \<Rightarrow> jsval \<Rightarrow> jstring \<Rightarrow> (jsval \<times> jstring) option" where
  "parse_literal w v s = (if take (length w) s = w then Some (v, drop (length w) s) else None)"

text \<open>
  The recursive descent over values.  The first argument bounds the nesting of calls; the
  text of a value of nesting depth \<open>d\<close> is at least \<open>d\<close> characters long, and
  \<open>json_parse\<close> starts with twice the length of the text.
\<close>

fun parse_value :: "nat \<Rightarrow> jstring \<Rightarrow> (jsval \<times> jstring) option"
  and parse_elements :: "nat \<Rightarrow> jsval list \<Rightarrow> jstring \<Rightarrow> (jsval \<times> jstring) option"
  and parse_members :: "nat \<Rightarrow> (jstring \<times> jsval) list \<Rightarrow> jstring \<Rightarrow> (jsval \<times> jstring) option" where
  "parse_value 0 s = None"
| "parse_value (Suc n) s =
     (case skip_ws s of
        [] \<Rightarrow> None
      | c # r \<Rightarrow>
          if c = 123 then
            (case skip_ws r of
               [] \<Rightarrow> None
             | x # r1 \<Rightarrow> if x = 125 then Some (JObj [], r1) else parse_members n [] r)
          else if c = 91 then
            (case skip_ws r of
               [] \<Rightarrow> None
             | x # r1 \<Rightarrow> if x = 93 then Some (JArr [], r1) else parse_elements n [] r)
          else if c = 34 then
            (case parse_string [] r of None \<Rightarrow> None | Some (t, r1) \<Rightarrow> Some (JStr t, r1))
          else if c = 116 then parse_literal (js ''true'') (JBool True) (c # r)
          else if c = 102 then parse_literal (js ''false'') (JBool False) (c # r)
          else if c = 110 then parse_literal (js ''null'') JNull (c # r)
          else (case parse_number (c # r) of None \<Rightarrow> None | Some (x, r1) \<Rightarrow> Some (JNum x, r1)))"
| "parse_elements 0 acc s = None"
| "parse_elements (Suc n) acc s =
     (case parse_value n s of
        None \<Rightarrow> None
      | Some (v, r) \<Rightarrow>
          (case skip_ws r of
             [] \<Rightarrow> None
           | x # r1 \<Rightarrow>
               if x = 44 then parse_elements n (acc @ [v]) r1
               else if x = 93 then Some (JArr (acc @ [v]), r1)
               else None))"
| "parse_members 0 acc s = None"
| "parse_members (Suc n) acc s =
     (case skip_ws s of
        [] \<Rightarrow> None
      | q # r \<Rightarrow>
          if q = 34 then
            (case parse_string [] r of
               None \<Rightarrow> None
             | Some (k, r1) \<Rightarrow>
                 (case skip_ws r1 of
                    [] \<Rightarrow> None
                  | x # r2 \<Rightarrow>
                      if x = 58 then
                        (case parse_value n r2 of
                           None \<Rightarrow> None
                         | Some (v, r3) \<Rightarrow>
                             (case skip_ws r3 of
                                [] \<Rightarrow> None
                              | y # r4 \<Rightarrow>
                                  if y = 44 then parse_members n (AList.update k v acc) r4
                                  else if y = 125 then Some (JObj (AList.update k v acc), r4)
                                  else None))
                      else None))
          else None)"

text \<open>\<open>JSON.parse(text)\<close>; \<open>None\<close> is the \<open>SyntaxError\<close> it throws.\<close>

definition json_parse :: "jstring \<Rightarrow> jsval option" where
  "json_parse s =
     (case parse_value (2 * length s + 2) s of
        None \<Rightarrow> None
      | Some (v, r) \<Rightarrow> if skip_ws r = [] then Some v else None)"


text \<open>
  \<open>decodeURIComponent(escape(s))\<close>: the string whose UTF-8 bytes are the code units of
  \<open>s\<close>; \<open>None\<close> is the \<open>URIError\<close> thrown when they are not well-formed UTF-8.
\<close>

fun utf8_decode :: "nat list \<Rightarrow> jstring option" where
  "utf8_decode [] = Some []"
| "utf8_decode (b0 # rest) =
     (if b0 < 128 then map_option (\<lambda>t. b0 # t) (utf8_decode rest)
      else if b0 > 239 then
        (case rest of
           b1 # b2 # b3 # r \<Rightarrow>
             (let cp = (b0 mod 16) * 262144 + (b1 mod 64) * 4096 + (b2 mod 64) * 64 + b3 mod 64
              in if b0 < 248 \<and> cont_byte b1 \<and> cont_byte b2 \<and> cont_byte b3
                    \<and> cp > 65535 \<and> cp < 1114112
                 then map_option
                        (\<lambda>t. (55296 + ((cp - 65536) div 1024) mod 1024)
                           # (56320 + (cp - 65536) mod 1024) # t)
                        (utf8_decode r)
                 else None)
         | _ \<Rightarrow> None)
      else if b0 > 223 then
        (case rest of
           b1 # b2 # r \<Rightarrow>
             (let cp = (b0 mod 16) * 4096 + (b1 mod 64) * 64 + b2 mod 64
              in if cont_byte b1 \<and> cont_byte b2 \<and> cp > 2047 \<and> (cp < 55296 \<or> cp > 57343)
                 then map_option (\<lambda>t. cp # t) (utf8_decode r)
                 else None)
         | _ \<Rightarrow> None)
      else if b0 > 191 then
        (case rest of
           b1 # r \<Rightarrow>
             (let cp = (b0 mod 32) * 64 + b1 mod 64
              in if cont_byte b1 \<and> cp > 127 then map_option (\<lambda>t. cp # t) (utf8_decode r)
                 else None)
         | _ \<Rightarrow> None)
      else None)"

text \<open>
  \<open>String(v)\<close> of a primitive value, as \<open>encodeURIComponent\<close> applies it to its
  argument.  An object never reaches it: the code hands objects to the provider as JWK.
\<close>

fun to_string :: "jsval \<Rightarrow> jstring" where
  "to_string (JStr s) = s"
| "to_string JUndefined = js ''undefined''"
| "to_string JNull = js ''null''"
| "to_string (JBool b) = (if b then js ''true'' else js ''false'')"
| "to_string (JNum r) = show_number r"
| "to_string _ = js ''[object Object]''"

section \<open>The helpers of the repository\<close>

text \<open>\<^verbatim>\<open>base64UrlParse(btoa(unescape(encodeURIComponent(str))))\<close>\<close>

definition utf8ToUint8Array :: "jstring \<Rightarrow> js_error + byte list" where
  "utf8ToUint8Array str =
     (case utf8_encode str of
        Inl e \<Rightarrow> Inl e
      | Inr bin \<Rightarrow> (case btoa bin of Inl e \<Rightarrow> Inl e | Inr t \<Rightarrow> base64UrlParse t))"

text \<open>
  \<open>decodePayload\<close>: the switch on \<open>raw.length % 4\<close> pads or throws; \<open>atob_json\<close>
  is its \<open>try\<close> block, where whatever
  \<open>JSON.parse(decodeURIComponent(escape(atob(raw))))\<close> throws is caught and gives \<open>null\<close>.
\<close>

definition atob_json :: "jstring \<Rightarrow> jsval" where
  "atob_json raw =
     (case atob raw of
        Inl e \<Rightarrow> JNull
      | Inr bin \<Rightarrow>
          (case utf8_decode bin of
             None \<Rightarrow> JNull
           | Some t \<Rightarrow> (case json_parse t of None \<Rightarrow> JNull | Some v \<Rightarrow> v)))"

definition decodePayload :: "jstring \<Rightarrow> js_error + jsval" where
  "decodePayload raw =
     (if length raw mod 4 = 0 then Inr (atob_json raw)
      else if length raw mod 4 = 2 then Inr (atob_json (raw @ js ''==''))
      else if length raw mod 4 = 3 then Inr (atob_json (raw @ js ''=''))
      else Inl (Error (js ''Illegal base64url string!'')))"






text \<open>
  \<open>timespan(time, iat)\<close>.  \<open>ms\<close> is the external parser: it returns milliseconds,
  \<open>None\<close> for \<open>undefined\<close>, or throws.  \<open>now\<close> is \<open>Math.floor(Date.now() / 1000)\<close>.
  \<open>iat\<close> is declared a number; for a truthy \<open>iat\<close> of another type the model gives
  \<open>undefined\<close>, which no caller in the repository exercises.
\<close>

definition timespan :: "(jstring \<Rightarrow> js_error + rat option) \<Rightarrow> int \<Rightarrow> jsval \<Rightarrow> jsval \<Rightarrow> js_error + jsval" where
  "timespan ms now time iat =
     (let timestamp = (if truthy iat then iat else JNum (of_int now))
      in case time of
           JStr t \<Rightarrow>
             (case ms t of
                Inl e \<Rightarrow> Inl e
              | Inr None \<Rightarrow> Inr JUndefined
              | Inr (Some milliseconds) \<Rightarrow>
                  (case timestamp of
                     JNum ts \<Rightarrow> Inr (JNum (of_int \<lfloor>ts + milliseconds / 1000\<rfloor>))
                   | _ \<Rightarrow> Inr JUndefined))
         | JNum t \<Rightarrow> (case timestamp of JNum ts \<Rightarrow> Inr (JNum (ts + t)) | _ \<Rightarrow> Inr JUndefined)
         | _ \<Rightarrow> Inr JUndefined)"


section \<open>\<open>sign\<close>\<close>

subsection \<open>Schemas and \<open>validate\<close>\<close>

type_synonym object = "(jstring \<times> jsval) list"














subsection \<open>The environment of a call\<close>

text \<open>
  What a call reads from outside the repository: the clock, the \<open>ms\<close> parser, the
  \<open>algorithms\<close> table (its file is not among the sources; \<open>undefined\<close> for a name it does
  not have) and the WebCrypto provider.  \<open>keyData\<close> is the second argument of
  \<open>importKey\<close>, tagged with the format: the JWK object, the PEM text (whose armour the code
  strips and turns into a buffer with \<open>str2ab\<close>, a file that is not among the sources,
  so that the provider of the model receives the text), or the raw bytes.  A key handle is
  a number.
\<close>

datatype key_data = Jwk jsval | Pkcs8 jstring | Spki jstring | Raw "byte list"

datatype key_usage = UseSign | UseVerify

record env =
  now :: int
  ms :: "jstring \<Rightarrow> js_error + rat option"
  algorithms :: "jstring \<Rightarrow> jsval"
  importKey :: "key_data \<Rightarrow> jsval \<Rightarrow> key_usage \<Rightarrow> js_error + nat"
  subtle_sign :: "jsval \<Rightarrow> nat \<Rightarrow> byte list \<Rightarrow> js_error + byte list"
  subtle_verify :: "jsval \<Rightarrow> nat \<Rightarrow> byte list \<Rightarrow> byte list \<Rightarrow> js_error + bool"

subsection \<open>Reading and writing the payload\<close>

text \<open>
  \<open>payload[k]\<close>, \<open>payload[k] = v\<close> and \<open>delete payload[k]\<close> where the payload is neither
  \<open>null\<close> nor \<open>undefined\<close>.  On a primitive the read gives \<open>undefined\<close>; \<open>sign\<close> never
  writes to one, since it has thrown for every option that would.
\<close>

fun read_prop :: "jsval \<Rightarrow> jstring \<Rightarrow> jsval" where
  "read_prop (JObj obj) k = lookup obj k"
| "read_prop _ k = JUndefined"



subsection \<open>The steps of \<open>sign\<close>\<close>

text \<open>
  The model is the call without a callback, where \<open>failure(err)\<close> throws \<open>err\<close>.
  \<open>options\<close> is an object (or absent: the empty object).
\<close>




text \<open>
  Lines 216 to 270.  Each step returns the payload as it stands and the error thrown, if
  any.  \<open>timestamp\<close> is \<^verbatim>\<open>payload['iat'] || Math.floor(Date.now() / 1000)\<close>.
\<close>

definition claim_timestamp :: "env \<Rightarrow> jsval \<Rightarrow> jsval" where
  "claim_timestamp e payload =
     (if truthy (read_prop payload (js ''iat'')) then read_prop payload (js ''iat'')
      else JNum (of_int (now e)))"











section \<open>\<open>decode\<close>\<close>

text \<open>
  \<open>jwsDecode\<close> and its helpers, for a token that is a string (\<open>toString\<close> returns a
  string as it is).  \<open>headerFromJWS\<close> is \<open>safeJsonParse\<close> of the first segment read as
  base64 and then as Latin-1, where a byte is its code unit; \<open>safeJsonParse\<close> returns
  \<open>undefined\<close> when \<open>JSON.parse\<close> throws.
\<close>

definition headerFromJWS :: "jstring \<Rightarrow> jsval" where
  "headerFromJWS jwsSig =
     (case json_parse (buffer_from_base64 (case split_on 46 jwsSig of p # _ \<Rightarrow> p | [] \<Rightarrow> [])) of
        None \<Rightarrow> JUndefined
      | Some v \<Rightarrow> v)"

definition isValidJws :: "jstring \<Rightarrow> bool" where
  "isValidJws string = (JWS_REGEX_test string \<and> truthy (headerFromJWS string))"

text \<open>
  The second and third segments.  Both are read only after \<open>isValidJws\<close>, when the token
  has three segments.
\<close>

definition payloadFromJWS :: "jstring \<Rightarrow> jstring" where
  "payloadFromJWS jwsSig =
     utf8_slice (buffer_from_base64 (case split_on 46 jwsSig of _ # p # _ \<Rightarrow> p | _ \<Rightarrow> []))"

definition signatureFromJWS :: "jstring \<Rightarrow> jstring" where
  "signatureFromJWS jwsSig = (case split_on 46 jwsSig of _ # _ # g # _ \<Rightarrow> g | _ \<Rightarrow> [])"

record decode_options =
  complete :: bool
  json :: bool

text \<open>
  \<open>jwsDecode\<close>: \<open>None\<close> is \<open>null\<close>; the triple is \<open>{header, payload, signature}\<close>.  The
  \<open>JSON.parse\<close> of the payload stands outside any \<open>try\<close>.
\<close>

definition jwsDecode :: "jstring \<Rightarrow> decode_options \<Rightarrow> js_error + (jsval \<times> jsval \<times> jstring) option" where
  "jwsDecode jwsSig opts =
     (if \<not> isValidJws jwsSig then Inr None
      else
        (let header = headerFromJWS jwsSig
         in if \<not> truthy header then Inr None
            else
              (let payload = payloadFromJWS jwsSig
               in if read_prop header (js ''typ'') = JStr (js ''JWT'') \<or> json opts then
                    (case json_parse payload of
                       None \<Rightarrow> Inl SyntaxError
                     | Some v \<Rightarrow> Inr (Some (header, v, signatureFromJWS jwsSig)))
                  else Inr (Some (header, JStr payload, signatureFromJWS jwsSig)))))"

text \<open>\<open>decode(token, options)\<close>; the result \<open>JNull\<close> is \<open>null\<close>.\<close>

definition decode :: "jstring \<Rightarrow> decode_options \<Rightarrow> js_error + jsval" where
  "decode token options =
     (case jwsDecode token options of
        Inl err \<Rightarrow> Inl err
      | Inr None \<Rightarrow> Inr JNull
      | Inr (Some (header, payload0, signature)) \<Rightarrow>
          (let payload =
                 (case payload0 of
                    JStr t \<Rightarrow>
                      (case json_parse t of
                         None \<Rightarrow> payload0
                       | Some obj \<Rightarrow> if obj \<noteq> JNull \<and> typeof obj = TObject then obj else payload0)
                  | _ \<Rightarrow> payload0)
           in if complete options then
                Inr (JObj [(js ''header'', header), (js ''payload'', payload),
                           (js ''signature'', JStr signature)])
              else Inr payload))"

section \<open>\<open>verify\<close>\<close>

text \<open>
  The function of \<open>verify.ts\<close>.  Its errors: \<open>throw new Error(message)\<close> in the guards,
  and \<open>throw new AuthTokenError(message)\<close> after them, a class the file uses and no source
  declares; the model keeps it as an error of its own.
\<close>

datatype verify_error = Thrown js_error | AuthTokenError jstring

text \<open>
  The default of the parameter, the string shorthand, and
  \<^verbatim>\<open>options = { algorithm: 'HS256', throwError: false, ...options }\<close>.
\<close>

definition verify_options :: "jsval \<Rightarrow> object" where
  "verify_options options =
     (let defaults = [(js ''algorithm'', JStr (js ''HS256'')), (js ''throwError'', JBool False)]
      in case options of
           JUndefined \<Rightarrow> defaults
         | JStr a \<Rightarrow> assign defaults [(js ''algorithm'', JStr a), (js ''throwError'', JBool False)]
         | JObj kvs \<Rightarrow> assign defaults kvs
         | _ \<Rightarrow> defaults)"

text \<open>
  \<open>a > b\<close> and \<open>a <= b\<close> with the clock on the right.  The claims \<open>nbf\<close> and \<open>exp\<close> are
  declared numbers; a boolean counts as 0 or 1, and for a string or an object, which
  JavaScript first converts to a number, the model takes the comparison as false, the
  result for \<open>NaN\<close>.
\<close>

fun js_greater :: "jsval \<Rightarrow> int \<Rightarrow> bool" where
  "js_greater (JNum x) n = (x > of_int n)"
| "js_greater (JBool b) n = ((if b then 1 else 0) > n)"
| "js_greater _ n = False"

fun js_less_eq :: "jsval \<Rightarrow> int \<Rightarrow> bool" where
  "js_less_eq (JNum x) n = (x \<le> of_int n)"
| "js_less_eq (JBool b) n = ((if b then 1 else 0) \<le> n)"
| "js_less_eq _ n = False"

text \<open>
  The two temporal checks on the value of the variable \<open>payload\<close>: \<open>None\<close> when both let
  the call go on, otherwise how the call ends.  Both read the clock; the model takes one
  reading for the two.
\<close>

definition temporal_checks :: "int \<Rightarrow> bool \<Rightarrow> jsval \<Rightarrow> (verify_error + jsval) option" where
  "temporal_checks clock throwError payload =
     (if truthy (read_prop payload (js ''nbf'')) \<and> js_greater (read_prop payload (js ''nbf'')) clock then
        Some (if throwError then Inl (AuthTokenError (js ''NotYetValid'')) else Inr (JBool False))
      else if truthy (read_prop payload (js ''exp'')) \<and> js_less_eq (read_prop payload (js ''exp'')) clock then
        Some (if throwError then Inl (AuthTokenError (js ''TokenExpiredError'')) else Inr (JBool False))
      else None)"

definition verify_key :: "jsval \<Rightarrow> js_error + key_data" where
  "verify_key secret =
     (if typeof secret = TObject then Inr (Jwk secret)
      else if typeof secret = TString \<and> take 10 (to_string secret) = js ''-----BEGIN''
      then Inr (Spki (to_string secret))
      else map_sum id Raw (utf8ToUint8Array (to_string secret)))"

text \<open>The key import and the signature check, the end of \<open>verify\<close>.\<close>

definition verify_signature :: "env \<Rightarrow> jsval \<Rightarrow> jstring list \<Rightarrow> jsval \<Rightarrow> jsval \<Rightarrow> verify_error + jsval" where
  "verify_signature e secret tokenParts algorithm payload =
     (case verify_key secret of
        Inl err \<Rightarrow> Inl (Thrown err)
      | Inr keyData \<Rightarrow>
          (case importKey e keyData algorithm UseVerify of
             Inl err \<Rightarrow> Inl (Thrown err)
           | Inr key \<Rightarrow>
               (case base64UrlParse (tokenParts ! 2) of
                  Inl err \<Rightarrow> Inl (Thrown err)
                | Inr signature \<Rightarrow>
                    (case utf8ToUint8Array (tokenParts ! 0 @ [46] @ tokenParts ! 1) of
                       Inl err \<Rightarrow> Inl (Thrown err)
                     | Inr data \<Rightarrow>
                         (case subtle_verify e algorithm key signature data of
                            Inl err \<Rightarrow> Inl (Thrown err)
                          | Inr ok \<Rightarrow> Inr (if ok then payload else JBool False))))))"

text \<open>
  The four guards at the head of \<open>verify\<close>, each a \<open>throw new Error(...)\<close>: \<open>None\<close>
  when the call goes on.
\<close>

definition verify_guard :: "jsval \<Rightarrow> jsval \<Rightarrow> object \<Rightarrow> verify_error option" where
  "verify_guard token secret options =
     (if typeof token \<noteq> TString then Some (Thrown (Error (js ''AuthTokenInvalidError'')))
      else if typeof secret \<noteq> TString \<and> typeof secret \<noteq> TObject
      then Some (Thrown (Error (js ''secret must be a string or a JWK object'')))
      else if typeof (lookup options (js ''algorithm'')) \<noteq> TString
      then Some (Thrown (Error (js ''options.algorithm must be a string'')))
      else if length (split_on 46 (to_string token)) \<noteq> 3
      then Some (Thrown (Error (js ''token must consist of 3 parts'')))
      else None)"

text \<open>
  \<open>verify(token, secret, options)\<close>.  After the guards the token is a string of three
  segments.  \<^verbatim>\<open>const { payload } = decode(token)\<close> reads the property \<open>payload\<close> of
  what \<open>decode\<close> returns, and \<open>decode\<close> without \<open>complete\<close> returns the payload of the
  token.
\<close>

definition verify :: "env \<Rightarrow> jsval \<Rightarrow> jsval \<Rightarrow> jsval \<Rightarrow> verify_error + jsval" where
  "verify e token secret options0 =
     (let options = verify_options options0
      in case verify_guard token secret options of
           Some err \<Rightarrow> Inl err
         | None \<Rightarrow>
             (let tokenParts = split_on 46 (to_string token);
                  algorithm = algorithms e (to_string (lookup options (js ''algorithm'')))
              in if \<not> truthy algorithm
                 then Inl (Thrown (Error (js ''algorithm not found'')))
                 else
                   (case decode (to_string token) \<lparr>complete = False, json = False\<rparr> of
                      Inl err \<Rightarrow> Inl (Thrown err)
                    | Inr decoded \<Rightarrow>
                        (case get_prop decoded (js ''payload'') of
                           Inl err \<Rightarrow> Inl (Thrown err)
                         | Inr payload \<Rightarrow>
                             if \<not> truthy payload then
                               (if truthy (lookup options (js ''throwError''))
                                then Inl (AuthTokenError (js ''ParseError''))
                                else Inr (JBool False))
                             else
                               (case temporal_checks (now e)
                                       (truthy (lookup options (js ''throwError''))) payload of
                                  Some r \<Rightarrow> r
                                | None \<Rightarrow>
                                    verify_signature e secret tokenParts algorithm payload)))))"

section \<open>An environment for the examples\<close>

text \<open>
  The clock at 1000 seconds, an \<open>ms\<close> that reads \<open>1h\<close> as 3600000 milliseconds and nothing
  else, a table that holds \<open>HS256\<close> alone, and a provider that imports every key, signs
  with the bytes 1, 2, 3 and accepts every signature.
\<close>

definition example_env :: env where
  "example_env =
     \<lparr> now = 1000,
       ms = (\<lambda>s. if s = js ''1h'' then Inr (Some 3600000) else Inr None),
       algorithms = (\<lambda>a. if a = js ''HS256'' then JObj [(js ''name'', JStr (js ''HMAC''))] else JUndefined),
       importKey = (\<lambda>keyData algorithm usage. Inr 1),
       subtle_sign = (\<lambda>algorithm key data. Inr [1, 2, 3]),
       subtle_verify = (\<lambda>algorithm key signature data. Inr True) \<rparr>"

section \<open>Notions used in the statements\<close>

text \<open>
  The 6-bit groups that \<open>btoa\<close> reads from a list of bytes, without the padding.
\<close>

fun sextets :: "nat list \<Rightarrow> nat list" where
  "sextets [] = []"
| "sextets [a] = [a div 4, (a mod 4) * 16]"
| "sextets [a, b] = [a div 4, (a mod 4) * 16 + b div 16, (b mod 16) * 4]"
| "sextets (a # b # c # rest) =
     (a div 4) # ((a mod 4) * 16 + b div 16) # ((b mod 16) * 4 + c div 64) # (c mod 64)
       # sextets rest"

text \<open>
  A canonical unpadded base64url string: characters of the URL-safe alphabet only, a
  length that is not 1 modulo 4, and zero in the bits of the last character that carry no
  data (the low 4 bits when the length is 2 modulo 4, the low 2 bits when it is 3).
\<close>

definition base64url_index :: "nat \<Rightarrow> nat option" where
  "base64url_index c =
     (if c = 45 then Some 62 else if c = 95 then Some 63
      else if c = 43 \<or> c = 47 then None else b64_index c)"

definition tail_ok :: "nat list \<Rightarrow> bool" where
  "tail_ok ss =
     (if length ss mod 4 = 2 then last ss mod 16 = 0
      else if length ss mod 4 = 3 then last ss mod 4 = 0
      else length ss mod 4 = 0)"

definition canonical :: "jstring \<Rightarrow> bool" where
  "canonical s = (case those (map base64url_index s) of None \<Rightarrow> False | Some ss \<Rightarrow> tail_ok ss)"

text \<open>
  The registered claim that \<open>sign\<close> writes under the name \<open>k\<close>, if any, in a call
  without \<open>noTimestamp\<close>: \<open>iat\<close> always, \<open>nbf\<close> and \<open>exp\<close> when \<open>notBefore\<close> and
  \<open>expiresIn\<close> are set, \<open>aud\<close>, \<open>iss\<close>, \<open>sub\<close> and \<open>jti\<close> when \<open>audience\<close>, \<open>issuer\<close>,
  \<open>subject\<close> and \<open>jwtid\<close> are.  \<open>options\<close> is the options object after the default
  algorithm has been added.
\<close>

definition injected_claim :: "env \<Rightarrow> object \<Rightarrow> object \<Rightarrow> jstring \<Rightarrow> jsval option" where
  "injected_claim e options obj k =
     (if k = js ''iat'' then Some (claim_timestamp e (JObj obj))
      else if k = js ''nbf'' \<and> typeof (lookup options (js ''notBefore'')) \<noteq> TUndefined then
        (case timespan (ms e) (now e) (lookup options (js ''notBefore''))
                (claim_timestamp e (JObj obj)) of
           Inl err \<Rightarrow> None
         | Inr v \<Rightarrow> Some v)
      else if k = js ''exp'' \<and> typeof (lookup options (js ''expiresIn'')) \<noteq> TUndefined then
        (case timespan (ms e) (now e) (lookup options (js ''expiresIn''))
                (claim_timestamp e (JObj obj)) of
           Inl err \<Rightarrow> None
         | Inr v \<Rightarrow> Some v)
      else if k = js ''aud'' \<and> typeof (lookup options (js ''audience'')) \<noteq> TUndefined
        then Some (lookup options (js ''audience''))
      else if k = js ''iss'' \<and> typeof (lookup options (js ''issuer'')) \<noteq> TUndefined
        then Some (lookup options (js ''issuer''))
      else if k = js ''sub'' \<and> typeof (lookup options (js ''subject'')) \<noteq> TUndefined
        then Some (lookup options (js ''subject''))
      else if k = js ''jti'' \<and> typeof (lookup options (js ''jwtid'')) \<noteq> TUndefined
        then Some (lookup options (js ''jwtid''))
      else None)"

text \<open>
  The payload after the injection: the injected claim where there is one, the claim of the
  payload that was passed otherwise.
\<close>

definition with_injected :: "env \<Rightarrow> object \<Rightarrow> object \<Rightarrow> jstring \<Rightarrow> jsval" where
  "with_injected e options obj k =
     (case injected_claim e options obj k of None \<Rightarrow> lookup obj k | Some v \<Rightarrow> v)"

text \<open>
  The platform reads back what it wrote: the text that \<open>JSON.stringify\<close> gives for \<open>v\<close>
  survives the UTF-8 encoder and decoder, and \<open>JSON.parse\<close> reads it as \<open>v\<close>.  So it is for
  the values JSON can express.
\<close>

definition json_roundtrip :: "jsval \<Rightarrow> bool" where
  "json_roundtrip v =
     (case json_stringify v of
        None \<Rightarrow> False
      | Some t \<Rightarrow>
          (case utf8_encode t of Inl err \<Rightarrow> False | Inr bs \<Rightarrow> utf8_slice bs = t)
          \<and> json_parse t = Some v)"

text \<open>
  The header text, which \<open>headerFromJWS\<close> reads as Latin-1, parses to a truthy value.
\<close>

definition header_readable :: "object \<Rightarrow> bool" where
  "header_readable h =
     (case json_stringify (JObj h) of
        None \<Rightarrow> False
      | Some t \<Rightarrow>
          (case utf8_encode t of
             Inl err \<Rightarrow> False
           | Inr bs \<Rightarrow> (case json_parse bs of None \<Rightarrow> False | Some v \<Rightarrow> truthy v)))"

section \<open>Properties\<close>


subsection \<open>The base64url codec\<close>




lemma b64_index_char: "i < 64 \<Longrightarrow> b64_index (b64_char i) = Some i"
  by (auto simp: b64_index_def b64_char_def)

lemma b64_char_index: "b64_index c = Some i \<Longrightarrow> i < 64 \<and> b64_char i = c"
  by (auto simp: b64_index_def b64_char_def split: if_splits)

lemma b64_char_not_pad: "i < 64 \<Longrightarrow> b64_char i \<noteq> 61"
  by (auto simp: b64_char_def)

lemma sextets_bound: "list_all (\<lambda>c. c < 256) bs \<Longrightarrow> list_all (\<lambda>i. i < 64) (sextets bs)"
  by (induction bs rule: sextets.induct) auto

lemma filter_pad_btoa_groups:
  "list_all (\<lambda>c. c < 256) bs \<Longrightarrow> filter (\<lambda>c. c \<noteq> 61) (btoa_groups bs) = map b64_char (sextets bs)"
  by (induction bs rule: sextets.induct) (auto simp: b64_char_not_pad)

lemma atob_groups_sextets: "list_all (\<lambda>c. c < 256) bs \<Longrightarrow> atob_groups (sextets bs) = bs"
  by (induction bs rule: sextets.induct) auto

lemma length_sextets: "length (sextets bs) mod 4 \<noteq> 1"
  by (induction bs rule: sextets.induct) auto




lemma quad_arith:
  fixes s0 s1 s2 s3 :: nat
  assumes "s0 < 64" "s1 < 64" "s2 < 64" "s3 < 64"
  shows "(s0 * 4 + s1 div 16) div 4 = s0"
    and "((s0 * 4 + s1 div 16) mod 4) * 16 + ((s1 mod 16) * 16 + s2 div 4) div 16 = s1"
    and "(((s1 mod 16) * 16 + s2 div 4) mod 16) * 4 + ((s2 mod 4) * 64 + s3) div 64 = s2"
    and "((s2 mod 4) * 64 + s3) mod 64 = s3"
proof -
  have x: "s1 div 16 < 4" and y: "s2 div 4 < 16" using assms by auto
  show "(s0 * 4 + s1 div 16) div 4 = s0" using x by simp
  have m: "(s0 * 4 + s1 div 16) mod 4 = s1 div 16" using x by simp
  have d: "((s1 mod 16) * 16 + s2 div 4) div 16 = s1 mod 16" using y by simp
  show "((s0 * 4 + s1 div 16) mod 4) * 16 + ((s1 mod 16) * 16 + s2 div 4) div 16 = s1" 
    unfolding m d by simp
  have m2: "((s1 mod 16) * 16 + s2 div 4) mod 16 = s2 div 4" using y by simp
  have d2: "((s2 mod 4) * 64 + s3) div 64 = s2 mod 4" using assms by simp
  show "(((s1 mod 16) * 16 + s2 div 4) mod 16) * 4 + ((s2 mod 4) * 64 + s3) div 64 = s2"
    unfolding m2 d2 by simp
  show "((s2 mod 4) * 64 + s3) mod 64 = s3" using assms by simp
qed


lemma atob_groups_bound: "list_all (\<lambda>i. i < 64) ss \<Longrightarrow> list_all (\<lambda>c. c < 256) (atob_groups ss)"
  by (induction ss rule: atob_groups.induct) auto

lemma tail_ok_step: "tail_ok (a # b # c # d # rest) = tail_ok rest"
proof (cases rest)
  case Nil
  then show ?thesis by (simp add: tail_ok_def)
next
  case (Cons x xs)
  have "length (a # b # c # d # rest) = length rest + 4" by simp
  then have len: "length (a # b # c # d # rest) mod 4 = length rest mod 4"
    by (simp only: mod_add_self2)
  have lst: "last (a # b # c # d # rest) = last rest" using Cons by simp
  show ?thesis unfolding tail_ok_def len lst ..
qed

lemma triple_arith:
  fixes s1 s2 :: nat
  assumes "s2 < 64" "s2 mod 4 = 0"
  shows "(((s1 mod 16) * 16 + s2 div 4) mod 16) * 4 = s2"
proof -
  have y: "s2 div 4 < 16" using assms by auto
  have m2: "((s1 mod 16) * 16 + s2 div 4) mod 16 = s2 div 4" using y by simp
  have "s2 div 4 * 4 = s2" using assms(2) by (metis add.right_neutral div_mult_mod_eq)
  then show ?thesis unfolding m2 .
qed

lemma pair_arith:
  fixes s0 s1 :: nat
  assumes "s1 < 64" "s1 mod 16 = 0"
  shows "((s0 * 4 + s1 div 16) mod 4) * 16 = s1"
proof -
  have x: "s1 div 16 < 4" using assms by auto
  have m: "(s0 * 4 + s1 div 16) mod 4 = s1 div 16" using x by simp
  have "s1 div 16 * 16 = s1" using assms(2) by (metis add.right_neutral div_mult_mod_eq)
  then show ?thesis unfolding m .
qed

lemma sextets_atob_groups:
  "list_all (\<lambda>i. i < 64) ss \<Longrightarrow> tail_ok ss \<Longrightarrow> sextets (atob_groups ss) = ss"
proof (induction ss rule: atob_groups.induct)
  case (1 s0 s1 s2 s3 rest)
  then have b: "s0 < 64" "s1 < 64" "s2 < 64" "s3 < 64" and r: "list_all (\<lambda>i. i < 64) rest"
    and t: "tail_ok rest" by (simp_all add: tail_ok_step)
  show ?case using quad_arith[OF b] "1.IH"[OF r t] by (simp del: mult_Suc_right)
next
  case (2 s0 s1 s2)
  then have b: "s0 < 64" "s1 < 64" "s2 < 64" and c: "s2 mod 4 = 0" by (simp_all add: tail_ok_def)
  show ?case using quad_arith(1,2)[OF b b(3)] triple_arith[OF b(3) c] by simp
next
  case (3 s0 s1)
  then have b: "s0 < 64" "s1 < 64" and c: "s1 mod 16 = 0" by (simp_all add: tail_ok_def)
  show ?case using quad_arith(1)[OF b b(2) b(2)] pair_arith[OF b(2) c] by simp
next
  case (4 s0)
  then show ?case by (simp add: tail_ok_def)
next
  case 5
  then show ?case by simp
qed






lemma b64_char_props:
  assumes "i < 64"
  shows "\<not> regex_space (b64_char i)" "\<not> ascii_whitespace (b64_char i)"
    "b64_char i \<noteq> 45" "b64_char i \<noteq> 95" "b64_char i < 256"
  using assms by (auto simp: b64_char_def regex_space_def ascii_whitespace_def)

lemma those_index_char:
  "list_all (\<lambda>i. i < 64) ss \<Longrightarrow> those (map (b64_index \<circ> b64_char) ss) = Some ss"
  by (induction ss) (auto simp: b64_index_char)

lemma strip_padding_id: "list_all (\<lambda>c. c \<noteq> 61) d \<Longrightarrow> strip_padding d = d"
proof (cases "rev d")
  case Nil
  then show ?thesis by (simp add: strip_padding_def)
next
  case (Cons a r)
  assume h: "list_all (\<lambda>c. c \<noteq> 61) d"
  have "a \<in> set d" using Cons by (metis list.set_intros(1) set_rev)
  then have "a \<noteq> 61" using h by (auto simp: list_all_iff)
  then show ?thesis using Cons by (cases r) (simp_all add: strip_padding_def)
qed

lemma atob_chars:
  assumes "list_all (\<lambda>i. i < 64) ss" "length ss mod 4 \<noteq> 1"
  shows "atob (map b64_char ss) = Inr (atob_groups ss)"
proof -
  have f: "filter (\<lambda>c. \<not> ascii_whitespace c) (map b64_char ss) = map b64_char ss"
    using assms(1) by (induction ss) (auto simp: b64_char_props)
  have p: "list_all (\<lambda>c. c \<noteq> 61) (map b64_char ss)"
    using assms(1) by (induction ss) (auto simp: b64_char_not_pad)
  show ?thesis
    unfolding atob_def f strip_padding_id[OF p] using assms
    by (simp add: those_index_char)
qed

lemma url_std_inverse:
  "list_all (\<lambda>i. i < 64) ss \<Longrightarrow>
   replace_all 95 47 (replace_all 45 43 (replace_all 47 95 (replace_all 43 45 (map b64_char ss))))
     = map b64_char ss"
  by (induction ss) (auto simp: replace_all_def b64_char_props)

lemma filter_space_url:
  "list_all (\<lambda>i. i < 64) ss \<Longrightarrow>
   filter (\<lambda>c. \<not> regex_space c) (map b64_char ss) = map b64_char ss"
  by (induction ss) (auto simp: b64_char_props)

lemma bytes_below: "list_all (\<lambda>c. c < 256) (map unat (a :: byte list))"
proof -
  have "unat w < 256" for w :: byte using unsigned_less[of w, where ?'a = nat] by simp
  then show ?thesis by (simp add: list_all_iff)
qed

lemma base64UrlStringify_eq:
  "base64UrlStringify a =
     Inr (replace_all 47 95 (replace_all 43 45 (map b64_char (sextets (map unat a)))))"
  using bytes_below[of a]
  by (simp add: base64UrlStringify_def btoa_def filter_pad_btoa_groups)

lemma base64UrlParse_Stringify:
  "base64UrlParse (replace_all 47 95 (replace_all 43 45 (map b64_char (sextets (map unat a))))) = Inr a"
proof -
  let ?bs = "map unat a"
  have b: "list_all (\<lambda>c. c < 256) ?bs" by (rule bytes_below)
  have s: "list_all (\<lambda>i. i < 64) (sextets ?bs)" by (rule sextets_bound[OF b])
  have w: "map of_nat ?bs = a" by (simp add: map_idI)
  show ?thesis
    unfolding base64UrlParse_def url_std_inverse[OF s] filter_space_url[OF s]
      atob_chars[OF s length_sextets] atob_groups_sextets[OF b]
    using w by simp
qed

lemma base64UrlParse_after_Stringify: "\<exists>s. base64UrlStringify a = Inr s \<and> base64UrlParse s = Inr a"
  using base64UrlStringify_eq base64UrlParse_Stringify by blast





lemma base64url_index_Some:
  assumes "base64url_index c = Some i"
  shows "i < 64"
    and "replace_all 95 47 (replace_all 45 43 [c]) = [b64_char i]"
    and "replace_all 47 95 (replace_all 43 45 [b64_char i]) = [c]"
  using assms
  by (auto simp: base64url_index_def b64_index_def b64_char_def replace_all_def split: if_splits)

lemma replace_all_Cons: "replace_all a b (c # s) = replace_all a b [c] @ replace_all a b s"
  by (simp add: replace_all_def)

lemma those_url_index:
  "those (map base64url_index s) = Some ss \<Longrightarrow>
     list_all (\<lambda>i. i < 64) ss \<and> length ss = length s
     \<and> replace_all 95 47 (replace_all 45 43 s) = map b64_char ss
     \<and> replace_all 47 95 (replace_all 43 45 (map b64_char ss)) = s"
proof (induction s arbitrary: ss)
  case Nil
  then show ?case by (simp add: replace_all_def)
next
  case (Cons c s)
  from Cons.prems obtain i rest where i: "base64url_index c = Some i"
    and r: "those (map base64url_index s) = Some rest" and ss: "ss = i # rest"
    by (auto split: option.splits)
  note h = base64url_index_Some[OF i]
  have e1: "replace_all 95 47 (replace_all 45 43 (c # s))
      = replace_all 95 47 (replace_all 45 43 [c]) @ replace_all 95 47 (replace_all 45 43 s)"
    by (simp add: replace_all_def)
  have e2: "replace_all 47 95 (replace_all 43 45 (map b64_char (i # rest)))
      = replace_all 47 95 (replace_all 43 45 [b64_char i])
          @ replace_all 47 95 (replace_all 43 45 (map b64_char rest))"
    by (simp add: replace_all_def)
  from Cons.IH[OF r] h(1) show ?case
    unfolding ss e1 e2 h(2) h(3) by simp
qed

lemma map_unat_of_nat:
  "list_all (\<lambda>c. c < 256) xs \<Longrightarrow> map unat (map of_nat xs :: byte list) = xs"
proof (induction xs)
  case Nil
  then show ?case by simp
next
  case (Cons x xs)
  then have "x < 256" by simp
  then have "unat (of_nat x :: byte) = x" by (simp add: unat_of_nat)
  with Cons show ?case by simp
qed

lemma tail_ok_length: "tail_ok ss \<Longrightarrow> length ss mod 4 \<noteq> 1"
  by (auto simp: tail_ok_def split: if_splits)

lemma base64UrlStringify_after_Parse:
  assumes "canonical s"
  shows "\<exists>a. base64UrlParse s = Inr a \<and> base64UrlStringify a = Inr s"
proof -
  from assms obtain ss where th: "those (map base64url_index s) = Some ss" and t: "tail_ok ss"
    by (auto simp: canonical_def split: option.splits)
  note u = those_url_index[OF th]
  from u have b: "list_all (\<lambda>i. i < 64) ss" by simp
  from u have std: "replace_all 95 47 (replace_all 45 43 s) = map b64_char ss" by simp
  from u have url_back: "replace_all 47 95 (replace_all 43 45 (map b64_char ss)) = s" by simp
  let ?a = "map of_nat (atob_groups ss) :: byte list"
  have p: "base64UrlParse s = Inr ?a"
    unfolding base64UrlParse_def std filter_space_url[OF b]
      atob_chars[OF b tail_ok_length[OF t]] by simp
  have un: "map unat ?a = atob_groups ss"
    by (rule map_unat_of_nat[OF atob_groups_bound[OF b]])
  have "base64UrlStringify ?a = Inr s"
    unfolding base64UrlStringify_eq un sextets_atob_groups[OF b t] url_back ..
  with p show ?thesis by blast
qed

lemma filter_space_replace:
  "filter (\<lambda>c. \<not> regex_space c) (replace_all 95 47 (replace_all 45 43 s))
     = replace_all 95 47 (replace_all 45 43 (filter (\<lambda>c. \<not> regex_space c) s))"
  by (induction s) (auto simp: replace_all_def regex_space_def)

lemma filter_ascii_space:
  "filter (\<lambda>c. \<not> ascii_whitespace c) (filter (\<lambda>c. \<not> regex_space c) s) = filter (\<lambda>c. \<not> regex_space c) s"
  by (induction s) (auto simp: ascii_whitespace_def regex_space_def)

lemma length_replace_all: "length (replace_all a b s) = length s"
  by (simp add: replace_all_def)

lemma base64UrlParse_length_1:
  assumes "length (filter (\<lambda>c. \<not> regex_space c) s) mod 4 = 1"
  shows "base64UrlParse s = Inl InvalidCharacterError"
proof -
  let ?d = "filter (\<lambda>c. \<not> regex_space c) (replace_all 95 47 (replace_all 45 43 s))"
  have l: "length ?d mod 4 = 1"
    unfolding filter_space_replace length_replace_all by (rule assms)
  have f: "filter (\<lambda>c. \<not> ascii_whitespace c) ?d = ?d"
    by (rule filter_ascii_space)
  have sp: "strip_padding ?d = ?d" using l by (simp add: strip_padding_def)
  show ?thesis unfolding base64UrlParse_def atob_def f sp using l by simp
qed



lemma those_url_index_no_pad:
  "those (map base64url_index s) = Some ss \<Longrightarrow> list_all (\<lambda>c. c \<noteq> 61) s"
proof (induction s arbitrary: ss)
  case Nil
  show ?case by simp
next
  case (Cons c s)
  from Cons.prems obtain i rest where i: "base64url_index c = Some i"
    and r: "those (map base64url_index s) = Some rest"
    by (auto split: option.splits)
  have "c \<noteq> 61"
    using i by (auto simp: base64url_index_def b64_index_def split: if_splits)
  then show ?case using Cons.IH[OF r] by simp
qed

lemma those_url_index_no_space:
  "those (map base64url_index s) = Some ss \<Longrightarrow> filter (\<lambda>c. \<not> regex_space c) s = s"
proof (induction s arbitrary: ss)
  case Nil
  show ?case by simp
next
  case (Cons c s)
  from Cons.prems obtain i rest where i: "base64url_index c = Some i"
    and r: "those (map base64url_index s) = Some rest"
    by (auto split: option.splits)
  have "\<not> regex_space c"
    using i by (auto simp: base64url_index_def b64_index_def regex_space_def split: if_splits)
  then show ?case using Cons.IH[OF r] by simp
qed

lemma base64UrlParse_plain:
  assumes "those (map base64url_index s) = Some ss"
  shows "base64UrlParse s =
     (if length s mod 4 = 1 then Inl InvalidCharacterError else Inr (map of_nat (atob_groups ss)))"
proof -
  note u = those_url_index[OF assms]
  from u have b: "list_all (\<lambda>i. i < 64) ss" and l: "length ss = length s"
    and std: "replace_all 95 47 (replace_all 45 43 s) = map b64_char ss" by simp_all
  show ?thesis
  proof (cases "length s mod 4 = 1")
    case True
    have "length (filter (\<lambda>c. \<not> regex_space c) s) mod 4 = 1"
      using those_url_index_no_space[OF assms] True by simp
    from base64UrlParse_length_1[OF this] True show ?thesis by simp
  next
    case False
    then have "length ss mod 4 \<noteq> 1" using l by simp
    then show ?thesis
      unfolding base64UrlParse_def std filter_space_url[OF b] atob_chars[OF b \<open>length ss mod 4 \<noteq> 1\<close>]
      using False by simp
  qed
qed

lemma atob_padded:
  assumes "list_all (\<lambda>i. i < 64) ss" "length (map b64_char ss @ pad) mod 4 = 0"
    "pad = [61, 61] \<or> (pad = [61] \<and> ss \<noteq> [])"
  shows "atob (map b64_char ss @ pad) = atob (map b64_char ss)"
proof -
  let ?d = "map b64_char ss"
  have f: "filter (\<lambda>c. \<not> ascii_whitespace c) ?d = ?d"
    using assms(1) by (induction ss) (auto simp: b64_char_props)
  have fp: "filter (\<lambda>c. \<not> ascii_whitespace c) (?d @ pad) = ?d @ pad"
    using assms(3) f by (auto simp: ascii_whitespace_def)
  have p: "list_all (\<lambda>c. c \<noteq> 61) ?d"
    using assms(1) by (induction ss) (auto simp: b64_char_not_pad)
  have sp: "strip_padding (?d @ pad) = ?d"
  proof (cases "pad = [61, 61]")
    case True
    then show ?thesis using assms(2) by (simp add: strip_padding_def)
  next
    case False
    with assms(3) have pd: "pad = [61]" and ne: "ss \<noteq> []" by auto
    then obtain x xs where r: "rev ?d = x # xs" by (cases "rev ?d") auto
    then have "x \<in> set ?d" by (metis list.set_intros(1) set_rev)
    then have x: "x \<noteq> 61" using p by (auto simp: list_all_iff)
    have rb: "rev (x # xs) = ?d" using r by (metis rev_rev_ident)
    have rv: "rev (?d @ [61]) = 61 # x # xs" using r by simp
    have l0: "length (?d @ [61]) mod 4 = 0" using assms(2) pd by simp
    have "strip_padding (?d @ [61]) = rev (x # xs)"
      unfolding strip_padding_def rv using l0 x by simp
    then show ?thesis unfolding pd rb .
  qed
  show ?thesis unfolding atob_def fp sp f strip_padding_id[OF p] ..
qed

lemma base64UrlParse_padded:
  assumes "those (map base64url_index s) = Some ss"
    and "(length s mod 4 = 2 \<and> pad = [61, 61]) \<or> (length s mod 4 = 3 \<and> pad = [61])"
  shows "base64UrlParse (s @ pad) = base64UrlParse s"
proof -
  note u = those_url_index[OF assms(1)]
  from u have b: "list_all (\<lambda>i. i < 64) ss" and l: "length ss = length s"
    and std: "replace_all 95 47 (replace_all 45 43 s) = map b64_char ss" by simp_all
  have stdp: "replace_all 95 47 (replace_all 45 43 (s @ pad)) = map b64_char ss @ pad"
    using assms(2) std by (auto simp: replace_all_def)
  have fp: "filter (\<lambda>c. \<not> regex_space c) (map b64_char ss @ pad) = map b64_char ss @ pad"
    using assms(2) filter_space_url[OF b] by (auto simp: regex_space_def)
  have ne: "ss \<noteq> []" using assms(2) l by auto
  have len: "length (map b64_char ss @ pad) mod 4 = 0"
    using assms(2) l by (auto simp: mod_Suc)
  have pd: "pad = [61, 61] \<or> (pad = [61] \<and> ss \<noteq> [])" using assms(2) ne by auto
  show ?thesis
    unfolding base64UrlParse_def stdp fp std filter_space_url[OF b] atob_padded[OF b len pd] ..
qed


text \<open>
  Claim C7, as amended.  For every byte sequence \<open>a\<close>, \<open>base64UrlParse\<close> of
  \<open>base64UrlStringify a\<close> is \<open>a\<close>.  For every canonical unpadded base64url string \<open>s\<close>,
  \<open>base64UrlStringify\<close> of \<open>base64UrlParse s\<close> is \<open>s\<close>.  \<open>base64UrlParse\<close> does not
  pad its input: \<open>atob\<close> reads the unpadded text, and for a string of alphabet characters
  the result is that of the text padded with \<open>==\<close> (length 2 modulo 4) or \<open>=\<close> (length 3
  modulo 4); it fails with the \<open>InvalidCharacterError\<close> of \<open>atob\<close> when the length without
  whitespace is 1 modulo 4.  \<open>decodePayload\<close> pads its input with \<open>==\<close> or \<open>=\<close> before
  \<open>atob\<close> and throws \<open>Illegal base64url string!\<close> when the length is 1 modulo 4.
\<close>

theorem base64url_codec:
  "(\<exists>t. base64UrlStringify a = Inr t \<and> base64UrlParse t = Inr a)
   \<and> (canonical s \<longrightarrow> (\<exists>b. base64UrlParse s = Inr b \<and> base64UrlStringify b = Inr s))
   \<and> (those (map base64url_index u2) \<noteq> None \<and> length u2 mod 4 = 2
        \<longrightarrow> base64UrlParse u2 = base64UrlParse (u2 @ js ''==''))
   \<and> (those (map base64url_index u3) \<noteq> None \<and> length u3 mod 4 = 3
        \<longrightarrow> base64UrlParse u3 = base64UrlParse (u3 @ js ''=''))
   \<and> (length (filter (\<lambda>c. \<not> regex_space c) v) mod 4 = 1
        \<longrightarrow> base64UrlParse v = Inl InvalidCharacterError)
   \<and> (length r2 mod 4 = 2 \<longrightarrow> decodePayload r2 = Inr (atob_json (r2 @ js ''=='')))
   \<and> (length r3 mod 4 = 3 \<longrightarrow> decodePayload r3 = Inr (atob_json (r3 @ js ''='')))
   \<and> (length r1 mod 4 = 1 \<longrightarrow> decodePayload r1 = Inl (Error (js ''Illegal base64url string!'')))"
proof -
  have A: "\<exists>t. base64UrlStringify a = Inr t \<and> base64UrlParse t = Inr a"
    by (rule base64UrlParse_after_Stringify)
  have B: "canonical s \<longrightarrow> (\<exists>b. base64UrlParse s = Inr b \<and> base64UrlStringify b = Inr s)"
    using base64UrlStringify_after_Parse by blast
  have P2: "those (map base64url_index u2) \<noteq> None \<and> length u2 mod 4 = 2
        \<longrightarrow> base64UrlParse u2 = base64UrlParse (u2 @ js ''=='')"
    using base64UrlParse_padded[of u2 _ "[61, 61]"] by (auto simp: js_def)
  have P3: "those (map base64url_index u3) \<noteq> None \<and> length u3 mod 4 = 3
        \<longrightarrow> base64UrlParse u3 = base64UrlParse (u3 @ js ''='')"
    using base64UrlParse_padded[of u3 _ "[61]"] by (auto simp: js_def)
  have D: "length (filter (\<lambda>c. \<not> regex_space c) v) mod 4 = 1
        \<longrightarrow> base64UrlParse v = Inl InvalidCharacterError"
    using base64UrlParse_length_1 by blast
  have R: "(length r2 mod 4 = 2 \<longrightarrow> decodePayload r2 = Inr (atob_json (r2 @ js ''=='')))
   \<and> (length r3 mod 4 = 3 \<longrightarrow> decodePayload r3 = Inr (atob_json (r3 @ js ''='')))
   \<and> (length r1 mod 4 = 1 \<longrightarrow> decodePayload r1 = Inl (Error (js ''Illegal base64url string!'')))"
    by (simp add: decodePayload_def)
  from A B P2 P3 D R show ?thesis by blast
qed

lemma eval_QQ: "those (map base64url_index (js ''QQ'')) = Some [16, 16]"
  by (simp add: js_def base64url_index_def b64_index_def)

lemma eval_QUI: "those (map base64url_index (js ''QUI'')) = Some [16, 20, 8]"
  by (simp add: js_def base64url_index_def b64_index_def)

text \<open>
  The hypotheses of \<open>base64url_codec\<close> hold at \<open>QQ\<close>, \<open>QUI\<close> and \<open>Q\<close>.
\<close>

theorem base64url_codec_witness:
  "canonical (js ''QQ'')
   \<and> (\<exists>b. base64UrlParse (js ''QQ'') = Inr b \<and> base64UrlStringify b = Inr (js ''QQ''))
   \<and> those (map base64url_index (js ''QQ'')) \<noteq> None \<and> length (js ''QQ'') mod 4 = 2
   \<and> base64UrlParse (js ''QQ'') = base64UrlParse (js ''QQ'' @ js ''=='')
   \<and> those (map base64url_index (js ''QUI'')) \<noteq> None \<and> length (js ''QUI'') mod 4 = 3
   \<and> base64UrlParse (js ''QUI'') = base64UrlParse (js ''QUI'' @ js ''='')
   \<and> length (filter (\<lambda>c. \<not> regex_space c) (js ''Q'')) mod 4 = 1
   \<and> base64UrlParse (js ''Q'') = Inl InvalidCharacterError
   \<and> length (js ''QQ'') mod 4 = 2 \<and> decodePayload (js ''QQ'') = Inr (atob_json (js ''QQ'' @ js ''==''))
   \<and> length (js ''QUI'') mod 4 = 3 \<and> decodePayload (js ''QUI'') = Inr (atob_json (js ''QUI'' @ js ''=''))
   \<and> length (js ''Q'') mod 4 = 1
   \<and> decodePayload (js ''Q'') = Inl (Error (js ''Illegal base64url string!''))"
proof -
  have c: "canonical (js ''QQ'')" by (simp add: canonical_def eval_QQ tail_ok_def)
  have n2: "those (map base64url_index (js ''QQ'')) \<noteq> None" by (simp add: eval_QQ)
  have n3: "those (map base64url_index (js ''QUI'')) \<noteq> None" by (simp add: eval_QUI)
  have l: "length (js ''QQ'') mod 4 = 2" "length (js ''QUI'') mod 4 = 3" "length (js ''Q'') mod 4 = 1"
    "length (filter (\<lambda>c. \<not> regex_space c) (js ''Q'')) mod 4 = 1"
    by (simp_all add: js_def regex_space_def)
  show ?thesis
    using base64url_codec[of "[65]" "js ''QQ''" "js ''QQ''" "js ''QUI''" "js ''Q''" "js ''QQ''" "js ''QUI''" "js ''Q''"]
      c n2 n3 l by blast
qed

text \<open>
  Claim C7 as stated fails: \<open>QR\<close> is an unpadded string of the alphabet that
  \<open>base64UrlParse\<close> accepts, and encoding its bytes gives \<open>QQ\<close>; and the string
  \<open>QUJD\<close> followed by a space has length 5, which is 1 modulo 4, and decodes.
\<close>

theorem base64url_codec_counterexample:
  "base64UrlParse (js ''QR'') = Inr [65] \<and> base64UrlStringify [65] = Inr (js ''QQ'')
   \<and> js ''QQ'' \<noteq> js ''QR''
   \<and> length (js ''QUJD '') mod 4 = 1 \<and> base64UrlParse (js ''QUJD '') = Inr [65, 66, 67]"
proof -
  have p: "those (map base64url_index (js ''QR'')) = Some [16, 17]"
    by (simp add: js_def base64url_index_def b64_index_def)
  have 1: "base64UrlParse (js ''QR'') = Inr [65]"
    unfolding base64UrlParse_plain[OF p] by (simp add: js_def)
  have 2: "base64UrlStringify [65] = Inr (js ''QQ'')"
    unfolding base64UrlStringify_eq by (simp add: js_def replace_all_def b64_char_def)
  have 3: "js ''QQ'' \<noteq> js ''QR''" by (simp add: js_def)
  have 4: "length (js ''QUJD '') mod 4 = 1" by (simp add: js_def)
  have 5: "base64UrlParse (js ''QUJD '') = Inr [65, 66, 67]"
    by (simp add: js_def base64UrlParse_def replace_all_def regex_space_def atob_def
        ascii_whitespace_def strip_padding_def b64_index_def)
  from 1 2 3 4 5 show ?thesis by blast
qed




subsection \<open>Evaluating the definitions\<close>

lemma js_eq_iff [simp]: "js a = js b \<longleftrightarrow> a = b"
  by (simp add: js_def inj_map_eq_map[OF inj_of_char])

lemma js_Nil [simp]: "js [] = []" by (simp add: js_def)

lemma js_eq_Nil [simp]: "js a = [] \<longleftrightarrow> a = []" "[] = js a \<longleftrightarrow> a = []"
  by (auto simp: js_def)









subsection \<open>Claim conflicts in \<open>sign\<close>\<close>







subsection \<open>Objects\<close>

lemma lookup_update: "lookup (AList.update k v al) k' = (if k' = k then v else lookup al k')"
  by (simp add: lookup_def update_conv')

lemma lookup_delete: "lookup (AList.delete k al) k' = (if k' = k then JUndefined else lookup al k')"
  by (simp add: lookup_def delete_conv')

lemma map_of_assign: "map_of (assign a b) = map_of a ++ map_of (rev b)"
  unfolding assign_def
proof (induction b arbitrary: a)
  case Nil
  show ?case by simp
next
  case (Cons kv b)
  show ?case
    by (simp add: Cons.IH update_conv' map_add_def fun_eq_iff split: option.splits prod.splits)
qed




subsection \<open>The guards of \<open>verify\<close>\<close>

lemma verify_guard_Some:
  "verify_guard token secret (verify_options options) = Some err
   \<Longrightarrow> verify e token secret options = Inl err"
  by (simp add: verify_def)

text \<open>
  Claim C5, as amended.  When the token is not a string, or the secret is neither a string
  nor an object, or \<open>options.algorithm\<close> is not a string, or the token does not split into
  exactly three parts, \<open>verify\<close> throws an \<open>Error\<close> whose message names the first check
  that failed.  It does so whatever \<open>options.throwError\<close> is, and whatever the clock, the
  algorithm table and the provider are: nothing has been decoded and no key imported.
\<close>

theorem verify_guards:
  "(typeof token1 \<noteq> TString
     \<longrightarrow> verify e1 token1 secret1 options1 = Inl (Thrown (Error (js ''AuthTokenInvalidError''))))
   \<and> (typeof token2 = TString \<and> typeof secret2 \<noteq> TString \<and> typeof secret2 \<noteq> TObject
     \<longrightarrow> verify e2 token2 secret2 options2
           = Inl (Thrown (Error (js ''secret must be a string or a JWK object''))))
   \<and> (typeof token3 = TString \<and> (typeof secret3 = TString \<or> typeof secret3 = TObject)
      \<and> typeof (lookup (verify_options options3) (js ''algorithm'')) \<noteq> TString
     \<longrightarrow> verify e3 token3 secret3 options3
           = Inl (Thrown (Error (js ''options.algorithm must be a string''))))
   \<and> ((typeof secret4 = TString \<or> typeof secret4 = TObject)
      \<and> typeof (lookup (verify_options options4) (js ''algorithm'')) = TString
      \<and> length (split_on 46 t4) \<noteq> 3
     \<longrightarrow> verify e4 (JStr t4) secret4 options4
           = Inl (Thrown (Error (js ''token must consist of 3 parts''))))"
proof -
  have 1: "verify e1 token1 secret1 options1 = Inl (Thrown (Error (js ''AuthTokenInvalidError'')))"
    if "typeof token1 \<noteq> TString"
    using that by (intro verify_guard_Some) (simp add: verify_guard_def)
  have 2: "verify e2 token2 secret2 options2
           = Inl (Thrown (Error (js ''secret must be a string or a JWK object'')))"
    if "typeof token2 = TString" "typeof secret2 \<noteq> TString" "typeof secret2 \<noteq> TObject"
    using that by (intro verify_guard_Some) (simp add: verify_guard_def)
  have 3: "verify e3 token3 secret3 options3
           = Inl (Thrown (Error (js ''options.algorithm must be a string'')))"
    if "typeof token3 = TString" "typeof secret3 = TString \<or> typeof secret3 = TObject"
      "typeof (lookup (verify_options options3) (js ''algorithm'')) \<noteq> TString"
    using that by (intro verify_guard_Some) (auto simp add: verify_guard_def)
  have 4: "verify e4 (JStr t4) secret4 options4
           = Inl (Thrown (Error (js ''token must consist of 3 parts'')))"
    if "typeof secret4 = TString \<or> typeof secret4 = TObject"
      "typeof (lookup (verify_options options4) (js ''algorithm'')) = TString"
      "length (split_on 46 t4) \<noteq> 3"
    using that by (intro verify_guard_Some) (auto simp add: verify_guard_def)
  from 1 2 3 4 show ?thesis by blast
qed

lemmas verify_eval = verify_def verify_options_def verify_guard_def assign_def lookup_def Let_def

text \<open>The hypotheses of \<open>verify_guards\<close> hold at four calls.\<close>

theorem verify_guards_witness:
  "typeof (JNum 5) \<noteq> TString
   \<and> verify example_env (JNum 5) (JStr (js ''secret'')) JUndefined
        = Inl (Thrown (Error (js ''AuthTokenInvalidError'')))
   \<and> typeof (JStr (js ''a.b.c'')) = TString \<and> typeof (JNum 7) \<noteq> TString \<and> typeof (JNum 7) \<noteq> TObject
   \<and> verify example_env (JStr (js ''a.b.c'')) (JNum 7) JUndefined
        = Inl (Thrown (Error (js ''secret must be a string or a JWK object'')))
   \<and> typeof (JStr (js ''secret'')) = TString
   \<and> typeof (lookup (verify_options (JObj [(js ''algorithm'', JNum 1)])) (js ''algorithm'')) \<noteq> TString
   \<and> verify example_env (JStr (js ''a.b.c'')) (JStr (js ''secret'')) (JObj [(js ''algorithm'', JNum 1)])
        = Inl (Thrown (Error (js ''options.algorithm must be a string'')))
   \<and> typeof (lookup (verify_options (JObj [(js ''throwError'', JBool True)])) (js ''algorithm'')) = TString
   \<and> length (split_on 46 (js ''a.b'')) \<noteq> 3
   \<and> verify example_env (JStr (js ''a.b'')) (JStr (js ''secret'')) (JObj [(js ''throwError'', JBool True)])
        = Inl (Thrown (Error (js ''token must consist of 3 parts'')))"
proof -
  have h: "typeof (JNum 5) \<noteq> TString"
    "typeof (JStr (js ''a.b.c'')) = TString" "typeof (JNum 7) \<noteq> TString" "typeof (JNum 7) \<noteq> TObject"
    "typeof (JStr (js ''secret'')) = TString"
    "typeof (lookup (verify_options (JObj [(js ''algorithm'', JNum 1)])) (js ''algorithm'')) \<noteq> TString"
    "typeof (lookup (verify_options (JObj [(js ''throwError'', JBool True)])) (js ''algorithm'')) = TString"
    by (simp_all add: verify_eval)
  have l: "length (split_on 46 (js ''a.b'')) \<noteq> 3" by (simp add: js_def)
  show ?thesis
    using verify_guards[where ?token1.0 = "JNum 5" and ?e1.0 = example_env
        and ?secret1.0 = "JStr (js ''secret'')" and ?options1.0 = JUndefined
        and ?token2.0 = "JStr (js ''a.b.c'')" and ?secret2.0 = "JNum 7" and ?e2.0 = example_env
        and ?options2.0 = JUndefined
        and ?token3.0 = "JStr (js ''a.b.c'')" and ?secret3.0 = "JStr (js ''secret'')"
        and ?options3.0 = "JObj [(js ''algorithm'', JNum 1)]" and ?e3.0 = example_env
        and ?secret4.0 = "JStr (js ''secret'')" and ?options4.0 = "JObj [(js ''throwError'', JBool True)]"
        and ?t4.0 = "js ''a.b''" and ?e4.0 = example_env] h l
    by blast
qed

text \<open>
  Claim C5 as stated fails: with \<open>throwError\<close> false, the token \<open>a.b\<close> of two segments
  makes \<open>verify\<close> throw; it does not return \<open>false\<close>.
\<close>

theorem verify_guards_counterexample:
  "verify example_env (JStr (js ''a.b'')) (JStr (js ''secret'')) (JObj [(js ''throwError'', JBool False)])
     = Inl (Thrown (Error (js ''token must consist of 3 parts'')))
   \<and> verify example_env (JStr (js ''a.b'')) (JStr (js ''secret'')) (JObj [(js ''throwError'', JBool False)])
     \<noteq> Inr (JBool False)"
proof -
  have l: "length (split_on 46 (js ''a.b'')) \<noteq> 3" by (simp add: js_def)
  have "verify_guard (JStr (js ''a.b'')) (JStr (js ''secret''))
          (verify_options (JObj [(js ''throwError'', JBool False)]))
        = Some (Thrown (Error (js ''token must consist of 3 parts'')))"
    using l by (simp add: verify_options_def verify_guard_def assign_def lookup_def)
  then show ?thesis by (simp add: verify_def)
qed



subsection \<open>\<open>utf8ToUint8Array\<close> and the segments of a token\<close>

lemma btoa_groups_padding:
  "list_all (\<lambda>c. c < 256) bs \<Longrightarrow>
   \<exists>pad. btoa_groups bs = map b64_char (sextets bs) @ pad
     \<and> (pad = [] \<or> pad = [61, 61] \<or> (pad = [61] \<and> sextets bs \<noteq> []))
     \<and> length (map b64_char (sextets bs) @ pad) mod 4 = 0"
proof (induction bs rule: sextets.induct)
  case 1
  show ?case by (intro exI[of _ "[]"]) simp
next
  case (2 a)
  show ?case by (intro exI[of _ "[61, 61]"]) simp
next
  case (3 a b)
  show ?case by (intro exI[of _ "[61]"]) simp
next
  case (4 a b c rest)
  from "4.prems" have "list_all (\<lambda>c. c < 256) rest" by simp
  from "4.IH"[OF this] obtain pad where
    H: "btoa_groups rest = map b64_char (sextets rest) @ pad
     \<and> (pad = [] \<or> pad = [61, 61] \<or> (pad = [61] \<and> sextets rest \<noteq> []))
     \<and> length (map b64_char (sextets rest) @ pad) mod 4 = 0" by (rule exE)
  note p = H[THEN conjunct1] and q = H[THEN conjunct2, THEN conjunct1]
    and l = H[THEN conjunct2, THEN conjunct2]
  have l': "length (map b64_char (sextets (a # b # c # rest)) @ pad) mod 4 = 0"
  proof -
    have "length (map b64_char (sextets (a # b # c # rest)) @ pad)
          = length (map b64_char (sextets rest) @ pad) + 4" by simp
    then show ?thesis using l by (simp only: mod_add_self2)
  qed
  have e': "btoa_groups (a # b # c # rest) = map b64_char (sextets (a # b # c # rest)) @ pad"
    using p by simp
  have q': "pad = [] \<or> pad = [61, 61] \<or> (pad = [61] \<and> sextets (a # b # c # rest) \<noteq> [])"
    using q by auto
  show ?case by (rule exI[of _ pad]) (intro conjI e' q' l')
qed

lemma std_chars_fixed:
  "list_all (\<lambda>i. i < 64) ss \<Longrightarrow>
   replace_all 95 47 (replace_all 45 43 (map b64_char ss)) = map b64_char ss"
  by (induction ss) (auto simp: replace_all_def b64_char_props)

lemma base64UrlParse_btoa_groups:
  assumes "list_all (\<lambda>c. c < 256) bs"
  shows "base64UrlParse (btoa_groups bs) = Inr (map of_nat bs)"
proof -
  let ?ss = "sextets bs"
  from btoa_groups_padding[OF assms] obtain pad where
    H: "btoa_groups bs = map b64_char ?ss @ pad
     \<and> (pad = [] \<or> pad = [61, 61] \<or> (pad = [61] \<and> ?ss \<noteq> []))
     \<and> length (map b64_char ?ss @ pad) mod 4 = 0" by (rule exE)
  note p = H[THEN conjunct1] and q = H[THEN conjunct2, THEN conjunct1]
    and l = H[THEN conjunct2, THEN conjunct2]
  have b: "list_all (\<lambda>i. i < 64) ?ss" by (rule sextets_bound[OF assms])
  have r1: "replace_all 95 47 (replace_all 45 43 (map b64_char ?ss)) = map b64_char ?ss"
    by (rule std_chars_fixed[OF b])
  have r: "replace_all 95 47 (replace_all 45 43 (map b64_char ?ss @ pad)) = map b64_char ?ss @ pad"
  proof -
    have "replace_all 95 47 (replace_all 45 43 pad) = pad" using q by (auto simp: replace_all_def)
    then show ?thesis using r1 by (simp add: replace_all_def)
  qed
  have f: "filter (\<lambda>c. \<not> regex_space c) (map b64_char ?ss @ pad) = map b64_char ?ss @ pad"
    using q filter_space_url[OF b] by (auto simp: regex_space_def)
  have a: "atob (map b64_char ?ss @ pad) = Inr (atob_groups ?ss)"
  proof (cases "pad = []")
    case True
    then show ?thesis using atob_chars[OF b length_sextets] by simp
  next
    case False
    then have "pad = [61, 61] \<or> (pad = [61] \<and> ?ss \<noteq> [])" using q by blast
    from atob_padded[OF b l this] atob_chars[OF b length_sextets] show ?thesis by simp
  qed
  show ?thesis
    unfolding base64UrlParse_def p r f a atob_groups_sextets[OF assms] by simp
qed

lemma utf8ToUint8Array_eq:
  "utf8ToUint8Array s =
     (case utf8_encode s of
        Inl e \<Rightarrow> Inl e
      | Inr bs \<Rightarrow> if list_all (\<lambda>c. c < 256) bs then Inr (map of_nat bs) else Inl InvalidCharacterError)"
  by (simp add: utf8ToUint8Array_def btoa_def base64UrlParse_btoa_groups split: sum.splits)

lemma utf8_encode_ascii: "list_all (\<lambda>c. c < 128) s \<Longrightarrow> utf8_encode s = Inr s"
  by (induction s) auto

lemma utf8ToUint8Array_ascii:
  assumes "list_all (\<lambda>c. c < 128) s"
  shows "utf8ToUint8Array s = Inr (map of_nat s)"
proof -
  have "list_all (\<lambda>c. c < 256) s" using assms by (induction s) auto
  then show ?thesis by (simp add: utf8ToUint8Array_eq utf8_encode_ascii[OF assms])
qed




subsection \<open>Evaluating \<open>JSON.parse\<close> and \<open>decode\<close>\<close>

lemmas parse_numeral_fuel =
  parse_value.simps(2)[of "pred_numeral k" for k, folded numeral_eq_Suc]
  parse_elements.simps(2)[of "pred_numeral k" for k, folded numeral_eq_Suc]
  parse_members.simps(2)[of "pred_numeral k" for k, folded numeral_eq_Suc]

lemmas json_eval = json_parse_def skip_ws_def json_space_def parse_numeral_fuel
  parse_literal_def parse_number_def parse_fraction_def parse_exponent_def is_digit_def
  digits_value_def hex_value_def Let_def

lemmas decode_eval = decode_def jwsDecode_def isValidJws_def JWS_REGEX_test_def jws_char_def
  headerFromJWS_def payloadFromJWS_def signatureFromJWS_def buffer_from_base64_def
  buffer_index_def b64_index_def List.map_filter_def cont_byte_def lookup_def

subsection \<open>\<open>decode\<close> and a payload that is not JSON\<close>

text \<open>
  Claim C6 at its failing input.  The token has the header \<^verbatim>\<open>{"typ":"JWT"}\<close> and the
  payload segment \<open>bm90IGpzb24\<close>, the text \<open>not json\<close>: it matches the grammar, its header
  parses, and \<open>decode\<close> throws the \<open>SyntaxError\<close> of \<open>JSON.parse\<close>.
\<close>

theorem decode_throws_SyntaxError:
  "decode (js ''eyJ0eXAiOiJKV1QifQ.bm90IGpzb24.c2ln'') \<lparr>complete = False, json = False\<rparr>
     = Inl SyntaxError"
proof -
  have v: "isValidJws (js ''eyJ0eXAiOiJKV1QifQ.bm90IGpzb24.c2ln'')"
    by (simp add: js_def decode_eval json_eval)
  have h: "headerFromJWS (js ''eyJ0eXAiOiJKV1QifQ.bm90IGpzb24.c2ln'')
             = JObj [(js ''typ'', JStr (js ''JWT''))]"
    by (simp add: js_def decode_eval json_eval)
  have p: "payloadFromJWS (js ''eyJ0eXAiOiJKV1QifQ.bm90IGpzb24.c2ln'') = js ''not json''"
    by (simp add: js_def decode_eval)
  have j: "json_parse (js ''not json'') = None"
    by (simp add: js_def json_eval)
  show ?thesis
    by (simp add: decode_def jwsDecode_def v h p j lookup_def)
qed

subsection \<open>\<open>verify\<close> and the temporal claims\<close>

lemma decode_exp0:
  \<open>decode (js ''eyJhbGciOiJIUzI1NiIsInR5cCI6IkpXVCJ9.eyJleHAiOjB9.AQID'')
      \<lparr>complete = False, json = False\<rparr>
    = Inr (JObj [(js ''exp'', JNum 0)])\<close>
  by (simp add: js_def decode_eval json_eval)

lemma decode_nested_exp0:
  \<open>decode (js ''eyJhbGciOiJIUzI1NiIsInR5cCI6IkpXVCJ9.eyJwYXlsb2FkIjp7ImV4cCI6MH19.AQID'')
      \<lparr>complete = False, json = False\<rparr>
    = Inr (JObj [(js ''payload'', JObj [(js ''exp'', JNum 0)])])\<close>
  by (simp add: js_def decode_eval json_eval)

lemma split_nested_exp0:
  "split_on 46 (js ''eyJhbGciOiJIUzI1NiIsInR5cCI6IkpXVCJ9.eyJwYXlsb2FkIjp7ImV4cCI6MH19.AQID'')
    = [js ''eyJhbGciOiJIUzI1NiIsInR5cCI6IkpXVCJ9'', js ''eyJwYXlsb2FkIjp7ImV4cCI6MH19'', js ''AQID'']"
  by (simp add: js_def)

lemma split_exp0:
  "split_on 46 (js ''eyJhbGciOiJIUzI1NiIsInR5cCI6IkpXVCJ9.eyJleHAiOjB9.AQID'')
    = [js ''eyJhbGciOiJIUzI1NiIsInR5cCI6IkpXVCJ9'', js ''eyJleHAiOjB9'', js ''AQID'']"
  by (simp add: js_def)

lemma verify_key_secret: "verify_key (JStr (js ''secret'')) = Inr (Raw (map of_nat (js ''secret'')))"
proof -
  have "list_all (\<lambda>c. c < 128) (js ''secret'')" by (simp add: js_def)
  from utf8ToUint8Array_ascii[OF this] show ?thesis
    by (simp add: verify_key_def) (simp add: js_def)
qed

lemma base64UrlParse_AQID: "base64UrlParse (js ''AQID'') = Inr [1, 2, 3]"
proof -
  have p: "those (map base64url_index (js ''AQID'')) = Some [0, 16, 8, 3]"
    by (simp add: js_def base64url_index_def b64_index_def)
  show ?thesis unfolding base64UrlParse_plain[OF p] by (simp add: js_def)
qed

text \<open>
  Claim C4 at its failing inputs, with the clock at 1000 and \<open>throwError\<close> true.  A token
  whose payload is \<^verbatim>\<open>{"exp":0}\<close> is not rejected as expired: \<open>verify\<close> takes the
  property \<open>payload\<close> of the decoded payload, finds none and throws \<open>ParseError\<close>.  The
  temporal checks themselves let \<open>exp = 0\<close> pass; a token whose payload is
  \<^verbatim>\<open>{"payload":{"exp":0}}\<close> reaches them, passes them and is verified.
\<close>

theorem verify_exp_zero:
  \<open>verify example_env (JStr (js ''eyJhbGciOiJIUzI1NiIsInR5cCI6IkpXVCJ9.eyJleHAiOjB9.AQID''))
      (JStr (js ''secret'')) (JObj [(js ''throwError'', JBool True)])
     = Inl (AuthTokenError (js ''ParseError''))
   \<and> temporal_checks 1000 True (JObj [(js ''exp'', JNum 0)]) = None
   \<and> verify example_env
        (JStr (js ''eyJhbGciOiJIUzI1NiIsInR5cCI6IkpXVCJ9.eyJwYXlsb2FkIjp7ImV4cCI6MH19.AQID''))
        (JStr (js ''secret'')) (JObj [(js ''throwError'', JBool True)])
     = Inr (JObj [(js ''exp'', JNum 0)])\<close>
proof -
  have 1: \<open>verify example_env (JStr (js ''eyJhbGciOiJIUzI1NiIsInR5cCI6IkpXVCJ9.eyJleHAiOjB9.AQID''))
      (JStr (js ''secret'')) (JObj [(js ''throwError'', JBool True)])
     = Inl (AuthTokenError (js ''ParseError''))\<close>
    by (simp add: verify_def verify_options_def verify_guard_def assign_def lookup_def Let_def
        split_exp0 decode_exp0 example_env_def)
  have 2: "temporal_checks 1000 True (JObj [(js ''exp'', JNum 0)]) = None"
    by (simp add: temporal_checks_def lookup_def)
  have a: "list_all (\<lambda>c. c < 128)
             (js ''eyJhbGciOiJIUzI1NiIsInR5cCI6IkpXVCJ9'' @ [46] @ js ''eyJwYXlsb2FkIjp7ImV4cCI6MH19'')"
    by (simp add: js_def)
  have s: "verify_signature example_env (JStr (js ''secret''))
       [js ''eyJhbGciOiJIUzI1NiIsInR5cCI6IkpXVCJ9'', js ''eyJwYXlsb2FkIjp7ImV4cCI6MH19'', js ''AQID'']
       alg (JObj [(js ''exp'', JNum 0)]) = Inr (JObj [(js ''exp'', JNum 0)])" for alg
    using utf8ToUint8Array_ascii[OF a]
    by (simp add: verify_signature_def verify_key_secret base64UrlParse_AQID example_env_def)
  have 3: \<open>verify example_env
        (JStr (js ''eyJhbGciOiJIUzI1NiIsInR5cCI6IkpXVCJ9.eyJwYXlsb2FkIjp7ImV4cCI6MH19.AQID''))
        (JStr (js ''secret'')) (JObj [(js ''throwError'', JBool True)])
     = Inr (JObj [(js ''exp'', JNum 0)])\<close>
    by (simp add: verify_def verify_options_def verify_guard_def assign_def lookup_def Let_def
        split_nested_exp0 decode_nested_exp0 temporal_checks_def s) (simp add: example_env_def)
  from 1 2 3 show ?thesis by blast
qed



subsection \<open>\<open>verify\<close> and a \<open>null\<close> secret\<close>

text \<open>
  Claim C10.  For the secret \<open>null\<close> the guards of \<open>verify\<close> never throw \<open>secret must be a
  string or a JWK object\<close>, since \<open>typeof null\<close> is \<open>object\<close>; \<open>null\<close> is handed to
  \<open>importKey\<close> as a JWK; and a call that passes the checks before the key import ends as
  that import ends.
\<close>

theorem verify_null_secret:
  "verify_guard token JNull options
     \<noteq> Some (Thrown (Error (js ''secret must be a string or a JWK object'')))
   \<and> verify_key JNull = Inr (Jwk JNull)
   \<and> (verify_guard (JStr t) JNull (verify_options options0) = None
      \<and> truthy (algorithms e (to_string (lookup (verify_options options0) (js ''algorithm''))))
      \<and> decode t \<lparr>complete = False, json = False\<rparr> = Inr decoded
      \<and> get_prop decoded (js ''payload'') = Inr payload
      \<and> truthy payload
      \<and> temporal_checks (now e) (truthy (lookup (verify_options options0) (js ''throwError''))) payload = None
      \<and> importKey e (Jwk JNull)
            (algorithms e (to_string (lookup (verify_options options0) (js ''algorithm'')))) UseVerify
          = Inl err
     \<longrightarrow> verify e (JStr t) JNull options0 = Inl (Thrown err))"
proof -
  have 1: "verify_guard token JNull options
     \<noteq> Some (Thrown (Error (js ''secret must be a string or a JWK object'')))"
    by (simp add: verify_guard_def)
  have 2: "verify_key JNull = Inr (Jwk JNull)"
    by (simp add: verify_key_def)
  have 3: "verify e (JStr t) JNull options0 = Inl (Thrown err)"
    if "verify_guard (JStr t) JNull (verify_options options0) = None"
      "truthy (algorithms e (to_string (lookup (verify_options options0) (js ''algorithm''))))"
      "decode t \<lparr>complete = False, json = False\<rparr> = Inr decoded"
      "get_prop decoded (js ''payload'') = Inr payload"
      "truthy payload"
      "temporal_checks (now e) (truthy (lookup (verify_options options0) (js ''throwError''))) payload = None"
      "importKey e (Jwk JNull)
            (algorithms e (to_string (lookup (verify_options options0) (js ''algorithm'')))) UseVerify
          = Inl err"
    using that by (simp add: verify_def Let_def verify_signature_def 2)
  from 1 2 3 show ?thesis by blast
qed

text \<open>
  The hypotheses of \<open>verify_null_secret\<close> hold for a token whose payload is
  \<^verbatim>\<open>{"payload":{"a":1}}\<close> and a provider that rejects every key.
\<close>

theorem verify_null_secret_witness:
  \<open>verify_guard (JStr (js ''eyJhbGciOiJIUzI1NiIsInR5cCI6IkpXVCJ9.eyJwYXlsb2FkIjp7ImEiOjF9fQ.AQID''))
       JNull (verify_options JUndefined) = None
   \<and> truthy (algorithms (example_env\<lparr>importKey := \<lambda>keyData algorithm usage. Inl ProviderError\<rparr>)
         (to_string (lookup (verify_options JUndefined) (js ''algorithm''))))
   \<and> decode (js ''eyJhbGciOiJIUzI1NiIsInR5cCI6IkpXVCJ9.eyJwYXlsb2FkIjp7ImEiOjF9fQ.AQID'')
        \<lparr>complete = False, json = False\<rparr>
       = Inr (JObj [(js ''payload'', JObj [(js ''a'', JNum 1)])])
   \<and> get_prop (JObj [(js ''payload'', JObj [(js ''a'', JNum 1)])]) (js ''payload'')
       = Inr (JObj [(js ''a'', JNum 1)])
   \<and> truthy (JObj [(js ''a'', JNum 1)])
   \<and> temporal_checks (now (example_env\<lparr>importKey := \<lambda>keyData algorithm usage. Inl ProviderError\<rparr>))
         (truthy (lookup (verify_options JUndefined) (js ''throwError'')))
         (JObj [(js ''a'', JNum 1)]) = None
   \<and> verify (example_env\<lparr>importKey := \<lambda>keyData algorithm usage. Inl ProviderError\<rparr>)
        (JStr (js ''eyJhbGciOiJIUzI1NiIsInR5cCI6IkpXVCJ9.eyJwYXlsb2FkIjp7ImEiOjF9fQ.AQID''))
        JNull JUndefined
       = Inl (Thrown ProviderError)\<close>
proof -
  let ?e = "example_env\<lparr>importKey := \<lambda>keyData algorithm usage. Inl ProviderError\<rparr>"
  let ?t = "js ''eyJhbGciOiJIUzI1NiIsInR5cCI6IkpXVCJ9.eyJwYXlsb2FkIjp7ImEiOjF9fQ.AQID''"
  have s: "length (split_on 46 ?t) = 3" by (simp add: js_def)
  have g: "verify_guard (JStr ?t) JNull (verify_options JUndefined) = None"
    using s by (simp add: verify_guard_def verify_options_def lookup_def)
  have a: "truthy (algorithms ?e (to_string (lookup (verify_options JUndefined) (js ''algorithm''))))"
    by (simp add: verify_options_def lookup_def example_env_def)
  have d: \<open>decode ?t \<lparr>complete = False, json = False\<rparr>
       = Inr (JObj [(js ''payload'', JObj [(js ''a'', JNum 1)])])\<close>
    by (simp add: js_def decode_eval json_eval)
  have p: "get_prop (JObj [(js ''payload'', JObj [(js ''a'', JNum 1)])]) (js ''payload'')
       = Inr (JObj [(js ''a'', JNum 1)])"
    by (simp add: lookup_def)
  have tr: "truthy (JObj [(js ''a'', JNum 1)])" by simp
  have tc: "temporal_checks (now ?e) (truthy (lookup (verify_options JUndefined) (js ''throwError'')))
         (JObj [(js ''a'', JNum 1)]) = None"
    by (simp add: temporal_checks_def lookup_def)
  have i: "importKey ?e (Jwk JNull)
            (algorithms ?e (to_string (lookup (verify_options JUndefined) (js ''algorithm'')))) UseVerify
          = Inl ProviderError"
    by simp
  have "verify ?e (JStr ?t) JNull JUndefined = Inl (Thrown ProviderError)"
    using verify_null_secret[of _ _ ?t JUndefined ?e "JObj [(js ''payload'', JObj [(js ''a'', JNum 1)])]"
        "JObj [(js ''a'', JNum 1)]" ProviderError] g a d p tr tc i
    by blast
  with g a d p tr tc show ?thesis by blast
qed


end
